theory Spec2Isabelle
  imports
    Main
    "HOL-Library.Char_ord"
    "HOL-Library.List_Lexorder"
    "HOL-Library.Multiset"
    "HOL-Library.AList"
begin

section \<open>Python strings and values\<close>

text \<open>
  A Python \<open>str\<close> is modelled as a \<open>string\<close>; a character stands for a code point below
  256. The functions below are the \<open>str\<close> methods the converter calls.
\<close>

type_synonym pathname = string

definition NL :: string where
  "NL = [CHR 0x0A]"

definition startswith :: "string \<Rightarrow> string \<Rightarrow> bool" where
  "startswith s p = (take (length p) s = p)"

definition endswith :: "string \<Rightarrow> string \<Rightarrow> bool" where
  "endswith s p = (length p \<le> length s \<and> drop (length s - length p) s = p)"

text \<open>\<open>sep.join(xs)\<close>.\<close>

fun join :: "string \<Rightarrow> string list \<Rightarrow> string" where
  "join sep [] = []"
| "join sep [x] = x"
| "join sep (x # y # ys) = x @ sep @ join sep (y # ys)"

text \<open>\<open>sub in s\<close> on strings.\<close>

fun contains :: "string \<Rightarrow> string \<Rightarrow> bool" where
  "contains sub [] = (sub = [])"
| "contains sub (c # cs) = (startswith (c # cs) sub \<or> contains sub cs)"

text \<open>
  \<open>str.isspace\<close> on the code points below 256: tab, line feed, vertical tab, form feed,
  carriage return, the four separators \<open>0x1c\<close> to \<open>0x1f\<close>, space, \<open>0x85\<close> and \<open>0xa0\<close>.
\<close>

definition isspace :: "char \<Rightarrow> bool" where
  "isspace c = (of_char c \<in> {9, 10, 11, 12, 13, 28, 29, 30, 31, 32, 133, 160 :: nat})"

text \<open>\<open>s.strip()\<close>: leading and trailing whitespace removed.\<close>

definition strip :: "string \<Rightarrow> string" where
  "strip s = rev (dropWhile isspace (rev (dropWhile isspace s)))"

text \<open>\<open>s.lower()\<close> on the code points below 256.\<close>

definition lower_char :: "char \<Rightarrow> char" where
  "lower_char c =
     (let n = (of_char c :: nat)
      in if (65 \<le> n \<and> n \<le> 90) \<or> (192 \<le> n \<and> n \<le> 222 \<and> n \<noteq> 215)
         then char_of (n + 32) else c)"

definition lower :: "string \<Rightarrow> string" where
  "lower s = map lower_char s"

text \<open>\<open>str(n)\<close> for integers: decimal digits, with a minus sign for negatives.\<close>

definition digit_char :: "nat \<Rightarrow> char" where
  "digit_char d = ''0123456789'' ! d"

function show_nat :: "nat \<Rightarrow> string" where
  "show_nat n = (if n < 10 then [digit_char n] else show_nat (n div 10) @ [digit_char (n mod 10)])"
  by pat_completeness auto
termination
  by (relation "measure id") auto

declare show_nat.simps [simp del]

definition show_int :: "int \<Rightarrow> string" where
  "show_int i = (if i < 0 then ''-'' @ show_nat (nat (- i)) else show_nat (nat i))"

text \<open>
  The values \<open>json.load\<close> returns. A \<open>dict\<close> keeps its keys in insertion order and is an
  association list; Python's \<open>None\<close> is \<open>JNull\<close>. A \<open>float\<close> is kept as the two things the
  converter can observe of it: whether it is zero, and its \<open>repr\<close>.
\<close>

datatype json =
    JNull
  | JBool bool
  | JInt int
  | JFloat bool string
  | JStr string
  | JArr "json list"
  | JObj "(string \<times> json) list"

text \<open>Truth value testing, as \<open>if x\<close> and \<open>x or y\<close> use it.\<close>

fun truthy :: "json \<Rightarrow> bool" where
  "truthy JNull = False"
| "truthy (JBool b) = b"
| "truthy (JInt n) = (n \<noteq> 0)"
| "truthy (JFloat is_zero r) = (\<not> is_zero)"
| "truthy (JStr s) = (s \<noteq> [])"
| "truthy (JArr xs) = (xs \<noteq> [])"
| "truthy (JObj kvs) = (kvs \<noteq> [])"

definition py_or :: "json \<Rightarrow> json \<Rightarrow> json" where
  "py_or a b = (if truthy a then a else b)"

fun is_dict :: "json \<Rightarrow> bool" where
  "is_dict (JObj kvs) = True"
| "is_dict _ = False"

fun dict_items :: "json \<Rightarrow> (string \<times> json) list" where
  "dict_items (JObj kvs) = kvs"
| "dict_items _ = []"

text \<open>\<open>d.get(k, default)\<close>.\<close>

definition dict_get :: "(string \<times> json) list \<Rightarrow> string \<Rightarrow> json \<Rightarrow> json" where
  "dict_get kvs k d = (case map_of kvs k of None \<Rightarrow> d | Some v \<Rightarrow> v)"

text \<open>\<open>d[k] = v\<close>: an existing key keeps its position, a new key goes last.\<close>

definition dict_set :: "(string \<times> json) list \<Rightarrow> string \<Rightarrow> json \<Rightarrow> (string \<times> json) list" where
  "dict_set kvs k v = AList.update k v kvs"

section \<open>The libraries the converter calls\<close>

text \<open>
  \<open>jsonschema\<close> reports a violation with its relative path (a deque of keys and indices),
  its absolute path and a message.
\<close>

datatype path_elem = Key string | Idx nat

record ValidationError =
  path :: "path_elem list"
  absolute_path :: "path_elem list"
  message :: string

datatype kind = GRAPH_META | GRAPH_NODE | GRAPH_EDGE | GRAPH_VARIABLES

text \<open>
  The functions of \<open>urllib\<close>, \<open>json\<close>, \<open>jsonschema\<close> and \<open>ruamel.yaml\<close> are parameters of the
  model: \<open>unquote\<close> is \<open>urllib.parse.unquote\<close>; \<open>json_load\<close> parses the text of a file
  (\<open>Inl\<close> carries the text of the \<open>JSONDecodeError\<close>); \<open>iter_errors k\<close> is
  \<open>Draft7Validator(SCHEMAS[k]).iter_errors\<close>; \<open>YAML_EMITTER_dump\<close> is the text
  \<open>YAML_EMITTER.dump\<close> writes into the buffer; \<open>py_repr\<close> is \<open>str\<close> on lists and dicts.
\<close>

record ext =
  unquote :: "string \<Rightarrow> string"
  json_load :: "string \<Rightarrow> string + json"
  iter_errors :: "kind \<Rightarrow> json \<Rightarrow> ValidationError list"
  YAML_EMITTER_dump :: "json \<Rightarrow> string"
  py_repr :: "json \<Rightarrow> string"

text \<open>\<open>str(x)\<close> on a JSON value.\<close>

definition py_str :: "ext \<Rightarrow> json \<Rightarrow> string" where
  "py_str X v =
     (case v of
        JNull \<Rightarrow> ''None''
      | JBool b \<Rightarrow> (if b then ''True'' else ''False'')
      | JInt n \<Rightarrow> show_int n
      | JFloat is_zero r \<Rightarrow> r
      | JStr s \<Rightarrow> s
      | _ \<Rightarrow> py_repr X v)"

text \<open>The exceptions the model distinguishes.\<close>

datatype exn =
    ConversionError string
  | OSError string
  | UnicodeDecodeError
  | TypeError
  | ValueError string
  | AssertionError

section \<open>Paths\<close>

text \<open>
  A \<open>pathlib.Path\<close> is modelled by its string form, absolute and normalised as
  \<open>resolve()\<close> returns it, with \<open>/\<close> as the separator.
\<close>

definition path_name :: "pathname \<Rightarrow> string" where
  "path_name p = rev (takeWhile (\<lambda>c. c \<noteq> CHR ''/'') (rev p))"

definition path_parent :: "pathname \<Rightarrow> pathname" where
  "path_parent p =
     (let d = rev (dropWhile (\<lambda>c. c \<noteq> CHR ''/'') (rev p))
      in if d = [] then ''.'' else if d = ''/'' then ''/'' else butlast d)"

definition joinpath :: "pathname \<Rightarrow> string \<Rightarrow> pathname" where
  "joinpath d n = (if endswith d ''/'' then d @ n else d @ ''/'' @ n)"

text \<open>
  \<open>suffix\<close>: the name from its last dot on, unless that dot is the first or the last
  character of the name.
\<close>

definition path_suffix :: "pathname \<Rightarrow> string" where
  "path_suffix p =
     (let name = path_name p;
          after = rev (takeWhile (\<lambda>c. c \<noteq> CHR ''.'') (rev name))
      in if CHR ''.'' \<in> set name \<and> after \<noteq> [] \<and> length after + 1 < length name
         then CHR ''.'' # after else [])"

definition path_stem :: "pathname \<Rightarrow> string" where
  "path_stem p =
     (let name = path_name p in take (length name - length (path_suffix p)) name)"

text \<open>\<open>with_suffix\<close> raises \<open>ValueError\<close> on an invalid suffix or an empty name.\<close>

definition with_suffix :: "pathname \<Rightarrow> string \<Rightarrow> exn + pathname" where
  "with_suffix p suffix =
     (if CHR ''/'' \<in> set suffix \<or> (suffix \<noteq> [] \<and> \<not> startswith suffix ''.'') \<or> suffix = ''.''
      then Inl (ValueError (''Invalid suffix '' @ suffix))
      else if path_name p = [] then Inl (ValueError (p @ '' has an empty name''))
      else Inr (take (length p - length (path_suffix p)) p @ suffix))"

text \<open>Paths are ordered by their lists of components.\<close>

fun split_path :: "string \<Rightarrow> string list" where
  "split_path [] = [[]]"
| "split_path (c # cs) =
     (if c = CHR ''/'' then [] # split_path cs
      else (case split_path cs of [] \<Rightarrow> [[c]] | w # ws \<Rightarrow> (c # w) # ws))"

section \<open>Conversion tasks\<close>

record ConversionTask =
  source :: pathname
  kind :: kind
  output_ext :: string
  root :: pathname
  schema_migrate :: bool
  verbose :: bool
  encoded_id :: "string option"
  data :: json
  yaml_text :: "string option"
  target :: "pathname option"

definition derive_target :: "ConversionTask \<Rightarrow> exn + pathname" where
  "derive_target task =
     (let suffix = (if startswith (output_ext task) ''.'' then output_ext task
                    else ''.'' @ output_ext task)
      in with_suffix (source task) suffix)"

definition decode_id :: "ext \<Rightarrow> ConversionTask \<Rightarrow> string option" where
  "decode_id X task =
     (case encoded_id task of None \<Rightarrow> None | Some e \<Rightarrow> Some (unquote X e))"

section \<open>Normalization\<close>

text \<open>\<open>task.data['id'] = str(task.data.get('id') or decoded)\<close>.\<close>

definition assign_id :: "ext \<Rightarrow> json \<Rightarrow> string \<Rightarrow> json" where
  "assign_id X d decoded =
     JObj (dict_set (dict_items d) ''id''
            (JStr (py_str X (py_or (dict_get (dict_items d) ''id'' JNull) (JStr decoded)))))"

definition apply_normalization :: "ext \<Rightarrow> ConversionTask \<Rightarrow> ConversionTask" where
  "apply_normalization X task =
     (if kind task = GRAPH_NODE \<and> is_dict (data task) then
        (case decode_id X task of
           None \<Rightarrow> task
         | Some decoded \<Rightarrow>
             if decoded \<noteq> [] then task\<lparr>data := assign_id X (data task) decoded\<rparr> else task)
      else if kind task = GRAPH_EDGE \<and> is_dict (data task) then
        (case decode_id X task of
           None \<Rightarrow> task
         | Some decoded \<Rightarrow>
             if decoded \<noteq> [] then task\<lparr>data := assign_id X (data task) decoded\<rparr> else task)
      else task)"

section \<open>Schema validation\<close>

text \<open>
  \<open>sorted(errors, key=lambda e: e.path)\<close> compares the paths with \<open><\<close>. Two deques are
  compared at their first differing elements; comparing a key with an index raises
  \<open>TypeError\<close> (\<open>None\<close> below). The sort is stable; it is modelled by insertion from the
  left, which raises when a comparison it makes raises.
\<close>

fun elem_lt :: "path_elem \<Rightarrow> path_elem \<Rightarrow> bool option" where
  "elem_lt (Key a) (Key b) = Some (a < b)"
| "elem_lt (Idx i) (Idx j) = Some (i < j)"
| "elem_lt _ _ = None"

fun deque_lt :: "path_elem list \<Rightarrow> path_elem list \<Rightarrow> bool option" where
  "deque_lt [] [] = Some False"
| "deque_lt [] (y # ys) = Some True"
| "deque_lt (x # xs) [] = Some False"
| "deque_lt (x # xs) (y # ys) = (if x = y then deque_lt xs ys else elem_lt x y)"

fun insort_path :: "ValidationError \<Rightarrow> ValidationError list \<Rightarrow> exn + ValidationError list" where
  "insort_path e [] = Inr [e]"
| "insort_path e (f # fs) =
     (case deque_lt (path e) (path f) of
        None \<Rightarrow> Inl TypeError
      | Some True \<Rightarrow> Inr (e # f # fs)
      | Some False \<Rightarrow>
          (case insort_path e fs of Inl x \<Rightarrow> Inl x | Inr r \<Rightarrow> Inr (f # r)))"

fun sorted_into :: "ValidationError list \<Rightarrow> ValidationError list \<Rightarrow> exn + ValidationError list" where
  "sorted_into acc [] = Inr acc"
| "sorted_into acc (e # es) =
     (case insort_path e acc of Inl x \<Rightarrow> Inl x | Inr acc' \<Rightarrow> sorted_into acc' es)"

definition sorted_by_path :: "ValidationError list \<Rightarrow> exn + ValidationError list" where
  "sorted_by_path errors = sorted_into [] errors"

fun str_elem :: "path_elem \<Rightarrow> string" where
  "str_elem (Key k) = k"
| "str_elem (Idx i) = show_nat i"

definition format_validation_error :: "ValidationError \<Rightarrow> string" where
  "format_validation_error error =
     (let p = join ''.'' (map str_elem (absolute_path error));
          prefix = (if p \<noteq> [] then p @ '': '' else [])
      in prefix @ message error)"

section \<open>Unique variable keys\<close>

fun check_variables :: "ext \<Rightarrow> pathname \<Rightarrow> (string \<rightharpoonup> nat) \<Rightarrow> nat \<Rightarrow> json list \<Rightarrow> exn option" where
  "check_variables X src seen idx [] = None"
| "check_variables X src seen idx (entry # rest) =
     (if \<not> is_dict entry then
        Some (ConversionError (''Invalid variable entry at index '' @ show_nat idx @ '' in '' @ src))
      else
        (let key = strip (py_str X (dict_get (dict_items entry) ''key'' (JStr [])))
         in if key = [] then
              Some (ConversionError (''Variable at index '' @ show_nat idx @ '' missing key in '' @ src))
            else
              (case seen key of
                 Some prev \<Rightarrow>
                   Some (ConversionError
                     (''Duplicate variable key '' @ [CHR 0x27] @ key @ [CHR 0x27] @ '' in '' @ src
                      @ '' (indexes '' @ show_nat prev @ '' and '' @ show_nat idx @ '')''))
               | None \<Rightarrow> check_variables X src (seen(key \<mapsto> idx)) (Suc idx) rest)))"

definition assert_unique_variable_keys :: "ext \<Rightarrow> ConversionTask \<Rightarrow> exn option" where
  "assert_unique_variable_keys X task =
     (let variables = py_or (data task) (JArr [])
      in case variables of
           JArr entries \<Rightarrow> check_variables X (source task) Map.empty 0 entries
         | _ \<Rightarrow> Some (ConversionError (''Variables file is not an array: '' @ source task)))"

section \<open>Cross-validation\<close>

definition edge_missing :: "ext \<Rightarrow> string set \<Rightarrow> ConversionTask \<Rightarrow> string list" where
  "edge_missing X node_ids edge_task =
     (let d = (if is_dict (data edge_task) then dict_items (data edge_task) else []);
          src = strip (py_str X (dict_get d ''source'' (JStr [])));
          tgt = strip (py_str X (dict_get d ''target'' (JStr [])))
      in filter (\<lambda>n. n \<noteq> [] \<and> n \<notin> node_ids) [src, tgt])"

fun check_edges :: "ext \<Rightarrow> string set \<Rightarrow> ConversionTask list \<Rightarrow> exn option" where
  "check_edges X node_ids [] = None"
| "check_edges X node_ids (edge_task # rest) =
     (let missing = edge_missing X node_ids edge_task
      in if missing \<noteq> [] then
           Some (ConversionError
             (''Edge '' @ source edge_task @ '' references missing nodes: '' @ join '', '' missing))
         else check_edges X node_ids rest)"

definition node_id_set :: "ext \<Rightarrow> ConversionTask list \<Rightarrow> string set" where
  "node_id_set X nodes =
     set (map (\<lambda>task. py_str X (dict_get (dict_items (data task)) ''id'' JNull))
              (filter (\<lambda>task. is_dict (data task)) nodes))"

definition cross_validate :: "ext \<Rightarrow> ConversionTask list \<Rightarrow> exn option" where
  "cross_validate X tasks =
     (let nodes = filter (\<lambda>task. kind task = GRAPH_NODE) tasks;
          edges = filter (\<lambda>task. kind task = GRAPH_EDGE) tasks;
          node_ids = node_id_set X nodes
      in if card node_ids \<noteq> length nodes then
           Some (ConversionError ''Duplicate node IDs detected during validation'')
         else check_edges X node_ids edges)"

section \<open>Rendering\<close>

definition render_yaml :: "ext \<Rightarrow> json \<Rightarrow> string" where
  "render_yaml X d =
     (let text = YAML_EMITTER_dump X d
      in if \<not> endswith text NL then text @ NL else text)"

section \<open>The operating system\<close>

text \<open>
  The file operations are parameters of the model, over any type \<open>'fs\<close> of file system
  states. A query returns its answer; an operation that changes the file system returns
  the new state together with the exception it raised, if any (a failed operation may
  have changed the file system). \<open>os_write_temp fs d s\<close> is the \<open>with\<close> block of the atomic
  write: a \<open>NamedTemporaryFile\<close> created in \<open>d\<close>, written with \<open>s\<close> and closed; it returns
  the temporary file's path. \<open>os_glob_json fs d\<close> is \<open>d.glob('*.json')\<close>.
\<close>

record 'fs os_ops =
  os_resolve :: "'fs \<Rightarrow> string \<Rightarrow> pathname"
  os_exists :: "'fs \<Rightarrow> pathname \<Rightarrow> bool"
  os_glob_json :: "'fs \<Rightarrow> pathname \<Rightarrow> pathname list"
  os_read_text :: "'fs \<Rightarrow> pathname \<Rightarrow> exn + string"
  os_mkdir :: "'fs \<Rightarrow> pathname \<Rightarrow> exn option \<times> 'fs"
  os_copy2 :: "'fs \<Rightarrow> pathname \<Rightarrow> pathname \<Rightarrow> exn option \<times> 'fs"
  os_write_temp :: "'fs \<Rightarrow> pathname \<Rightarrow> string \<Rightarrow> (exn + pathname) \<times> 'fs"
  os_replace :: "'fs \<Rightarrow> pathname \<Rightarrow> pathname \<Rightarrow> exn option \<times> 'fs"
  os_write_text :: "'fs \<Rightarrow> pathname \<Rightarrow> string \<Rightarrow> exn option \<times> 'fs"

section \<open>The converter\<close>

text \<open>The parsed command line (\<open>argparse.Namespace\<close>).\<close>

record Args =
  args_root :: "string option"
  args_files :: "string list option"
  args_output_ext :: string
  args_in_place :: bool
  args_backup :: bool
  args_dry_run :: bool
  args_atomic :: bool
  args_validate_only :: bool
  args_schema_migrate :: bool
  args_strict :: bool
  args_verbose :: bool

text \<open>
  The state of a \<open>GraphConverter\<close>, and what it has written to standard output so far.
\<close>

record GraphConverter =
  failures :: "string list"
  converted :: nat
  skipped :: nat
  stdout :: "string list"

definition init_converter :: GraphConverter where
  "init_converter = \<lparr>failures = [], converted = 0, skipped = 0, stdout = []\<rparr>"

definition stdout_write :: "GraphConverter \<Rightarrow> string \<Rightarrow> GraphConverter" where
  "stdout_write st s = st\<lparr>stdout := stdout st @ [s]\<rparr>"

definition py_print :: "GraphConverter \<Rightarrow> string \<Rightarrow> GraphConverter" where
  "py_print st s = stdout_write st (s @ NL)"

definition log :: "Args \<Rightarrow> GraphConverter \<Rightarrow> string \<Rightarrow> GraphConverter" where
  "log args st m = (if args_verbose args then py_print st m else st)"

definition warn :: "GraphConverter \<Rightarrow> string \<Rightarrow> GraphConverter" where
  "warn st m = py_print st (''[warn] '' @ m)"

definition error :: "GraphConverter \<Rightarrow> string \<Rightarrow> GraphConverter" where
  "error st m = py_print st (''[error] '' @ m)"

subsection \<open>Collecting the tasks\<close>

definition determine_kind :: "pathname \<Rightarrow> kind option" where
  "determine_kind p =
     (let lower_name = lower (path_name p)
      in if lower_name = ''graph.meta.json'' then Some GRAPH_META
         else if lower_name = ''variables.json'' then Some GRAPH_VARIABLES
         else if contains ''/nodes/'' p then Some GRAPH_NODE
         else if contains ''/edges/'' p then Some GRAPH_EDGE
         else None)"

text \<open>The em dash of the warning, in UTF-8.\<close>

definition EM_DASH :: string where
  "EM_DASH = [CHR 0xE2, CHR 0x80, CHR 0x94]"

definition new_task :: "Args \<Rightarrow> pathname option \<Rightarrow> pathname \<Rightarrow> kind \<Rightarrow> ConversionTask" where
  "new_task args root_dir file_path k =
     \<lparr>source = file_path,
      kind = k,
      output_ext = args_output_ext args,
      root = (case root_dir of Some r \<Rightarrow> r | None \<Rightarrow> path_parent file_path),
      schema_migrate = args_schema_migrate args,
      verbose = args_verbose args,
      encoded_id = (if k = GRAPH_NODE \<or> k = GRAPH_EDGE then Some (path_stem file_path) else None),
      data = JNull,
      yaml_text = None,
      target = None\<rparr>"

definition add_task ::
  "Args \<Rightarrow> pathname option \<Rightarrow> pathname \<Rightarrow> kind option \<Rightarrow> GraphConverter \<times> ConversionTask list
   \<Rightarrow> exn option \<times> GraphConverter \<times> ConversionTask list" where
  "add_task args root_dir file_path k acc =
     (case acc of (st, tasks) \<Rightarrow>
       (case k of
          None \<Rightarrow>
            (let msg = ''Unknown file type for '' @ file_path
             in if args_strict args then (Some (ConversionError msg), st, tasks)
                else (None, warn st (msg @ '' '' @ EM_DASH @ '' skipping''), tasks))
        | Some k' \<Rightarrow> (None, st, tasks @ [new_task args root_dir file_path k'])))"

text \<open>
  The tasks of the root directory. Every \<open>add_task\<close> of this part has a known kind, so
  it appends one task and neither warns nor raises.
\<close>

definition collect_root :: "'fs os_ops \<Rightarrow> Args \<Rightarrow> 'fs \<Rightarrow> pathname \<Rightarrow> ConversionTask list" where
  "collect_root os args fs r =
     (let meta = joinpath r ''graph.meta.json'';
          nodes_dir = joinpath r ''nodes'';
          edges_dir = joinpath r ''edges'';
          variables = joinpath r ''variables.json''
      in (if os_exists os fs meta then [new_task args (Some r) meta GRAPH_META] else [])
         @ (if os_exists os fs nodes_dir
            then map (\<lambda>f. new_task args (Some r) f GRAPH_NODE)
                     (sort_key split_path (os_glob_json os fs nodes_dir))
            else [])
         @ (if os_exists os fs edges_dir
            then map (\<lambda>f. new_task args (Some r) f GRAPH_EDGE)
                     (sort_key split_path (os_glob_json os fs edges_dir))
            else [])
         @ (if os_exists os fs variables then [new_task args (Some r) variables GRAPH_VARIABLES]
            else []))"

fun collect_files ::
  "'fs os_ops \<Rightarrow> Args \<Rightarrow> 'fs \<Rightarrow> pathname option \<Rightarrow> string list
   \<Rightarrow> GraphConverter \<times> ConversionTask list \<Rightarrow> exn option \<times> GraphConverter \<times> ConversionTask list" where
  "collect_files os args fs root_dir [] acc = (None, acc)"
| "collect_files os args fs root_dir (file_str # rest) acc =
     (let file_path = os_resolve os fs file_str
      in if \<not> os_exists os fs file_path then
           (Some (ConversionError (''File not found: '' @ file_path)), acc)
         else
           (case add_task args root_dir file_path (determine_kind file_path) acc of
              (Some e, acc') \<Rightarrow> (Some e, acc')
            | (None, acc') \<Rightarrow> collect_files os args fs root_dir rest acc'))"

definition collect_tasks ::
  "'fs os_ops \<Rightarrow> Args \<Rightarrow> 'fs \<Rightarrow> GraphConverter
   \<Rightarrow> exn option \<times> GraphConverter \<times> ConversionTask list" where
  "collect_tasks os args fs st =
     (let root_dir = (case args_root args of
                        None \<Rightarrow> None
                      | Some r \<Rightarrow> if r \<noteq> [] then Some (os_resolve os fs r) else None);
          tasks = (case root_dir of None \<Rightarrow> [] | Some r \<Rightarrow> collect_root os args fs r)
      in case args_files args of
           None \<Rightarrow> (None, st, tasks)
         | Some files \<Rightarrow>
             if files \<noteq> [] then collect_files os args fs root_dir files (st, tasks)
             else (None, st, tasks))"

subsection \<open>Loading and validating\<close>

text \<open>The body of the loop of \<open>load_tasks\<close>, for one task.\<close>

definition load_task :: "ext \<Rightarrow> 'fs os_ops \<Rightarrow> 'fs \<Rightarrow> ConversionTask \<Rightarrow> exn + ConversionTask" where
  "load_task X os fs task =
     (case os_read_text os fs (source task) of
        Inl e \<Rightarrow> Inl e
      | Inr text \<Rightarrow>
          (case json_load X text of
             Inl exc \<Rightarrow>
               Inl (ConversionError (''Failed to parse JSON '' @ source task @ '': '' @ exc))
           | Inr d \<Rightarrow>
               (let task1 = task\<lparr>data := d\<rparr>;
                    task2 = (if schema_migrate task1 then apply_normalization X task1 else task1)
                in case sorted_by_path (iter_errors X (kind task2) (data task2)) of
                     Inl e \<Rightarrow> Inl e
                   | Inr errors \<Rightarrow>
                       if errors \<noteq> [] then
                         Inl (ConversionError
                           (''Validation failed for '' @ source task2 @ '': ''
                            @ join ''; '' (map format_validation_error errors)))
                       else
                         (case (if kind task2 = GRAPH_VARIABLES
                                then assert_unique_variable_keys X task2 else None) of
                            Some e \<Rightarrow> Inl e
                          | None \<Rightarrow>
                              (let task3 = task2\<lparr>yaml_text := Some (render_yaml X (data task2))\<rparr>
                               in case derive_target task3 of
                                    Inl e \<Rightarrow> Inl e
                                  | Inr t \<Rightarrow> Inr (task3\<lparr>target := Some t\<rparr>))))))"

fun load_tasks ::
  "ext \<Rightarrow> 'fs os_ops \<Rightarrow> 'fs \<Rightarrow> ConversionTask list \<Rightarrow> exn + ConversionTask list" where
  "load_tasks X os fs [] = Inr []"
| "load_tasks X os fs (task # rest) =
     (case load_task X os fs task of
        Inl e \<Rightarrow> Inl e
      | Inr task' \<Rightarrow>
          (case load_tasks X os fs rest of
             Inl e \<Rightarrow> Inl e
           | Inr rest' \<Rightarrow> Inr (task' # rest')))"

subsection \<open>Writing\<close>

text \<open>
  The backup step of \<open>write_output\<close>: \<open>shutil.copy2\<close> of the source to its sibling with
  \<open>.bak\<close> appended to the suffix.
\<close>

definition write_backup ::
  "'fs os_ops \<Rightarrow> Args \<Rightarrow> GraphConverter \<Rightarrow> 'fs \<Rightarrow> ConversionTask
   \<Rightarrow> exn option \<times> GraphConverter \<times> 'fs" where
  "write_backup os args st fs task =
     (if args_backup args \<and> os_exists os fs (source task) then
        (case with_suffix (source task) (path_suffix (source task) @ ''.bak'') of
           Inl e \<Rightarrow> (Some e, st, fs)
         | Inr backup \<Rightarrow>
             (case os_copy2 os fs (source task) backup of
                (Some e, fs') \<Rightarrow> (Some e, st, fs')
              | (None, fs') \<Rightarrow> (None, log args st (''Backup created at '' @ backup), fs')))
      else (None, st, fs))"

definition write_target ::
  "'fs os_ops \<Rightarrow> Args \<Rightarrow> 'fs \<Rightarrow> pathname \<Rightarrow> string \<Rightarrow> exn option \<times> 'fs" where
  "write_target os args fs t text =
     (if args_atomic args then
        (case os_write_temp os fs (path_parent t) text of
           (Inl e, fs') \<Rightarrow> (Some e, fs')
         | (Inr tmp_path, fs') \<Rightarrow> os_replace os fs' tmp_path t)
      else os_write_text os fs t text)"

definition write_output ::
  "'fs os_ops \<Rightarrow> Args \<Rightarrow> GraphConverter \<Rightarrow> 'fs \<Rightarrow> ConversionTask
   \<Rightarrow> exn option \<times> GraphConverter \<times> 'fs" where
  "write_output os args st fs task =
     (case (yaml_text task, target task) of
        (Some text, Some t) \<Rightarrow>
          (case os_mkdir os fs (path_parent t) of
             (Some e, fs1) \<Rightarrow> (Some e, st, fs1)
           | (None, fs1) \<Rightarrow>
               (case write_backup os args st fs1 task of
                  (Some e, st2, fs2) \<Rightarrow> (Some e, st2, fs2)
                | (None, st2, fs2) \<Rightarrow>
                    (case write_target os args fs2 t text of (r, fs3) \<Rightarrow> (r, st2, fs3))))
      | _ \<Rightarrow> (Some AssertionError, st, fs))"

text \<open>The last part of \<open>handle_task\<close>: the dry-run report, or the write and its report.\<close>

definition handle_write ::
  "'fs os_ops \<Rightarrow> Args \<Rightarrow> GraphConverter \<Rightarrow> 'fs \<Rightarrow> ConversionTask \<Rightarrow> pathname
   \<Rightarrow> exn option \<times> GraphConverter \<times> 'fs" where
  "handle_write os args st fs task t =
     (let status_prefix = source task @ '' -> '' @ t
      in if args_validate_only args \<or> args_dry_run args then
           (None, (py_print st (''dry-run: '' @ status_prefix))\<lparr>skipped := skipped st + 1\<rparr>, fs)
         else
           (case write_output os args st fs task of
              (Some e, st', fs') \<Rightarrow>
                (case e of
                   OSError exc \<Rightarrow>
                     (None, st'\<lparr>failures := failures st' @ [''Failed to write '' @ t @ '': '' @ exc]\<rparr>, fs')
                 | _ \<Rightarrow> (Some e, st', fs'))
            | (None, st', fs') \<Rightarrow>
                (None, (py_print st' (''ok: '' @ status_prefix))\<lparr>converted := converted st' + 1\<rparr>, fs')))"

definition handle_task ::
  "'fs os_ops \<Rightarrow> Args \<Rightarrow> GraphConverter \<Rightarrow> 'fs \<Rightarrow> ConversionTask
   \<Rightarrow> exn option \<times> GraphConverter \<times> 'fs" where
  "handle_task os args st fs task =
     (case (yaml_text task, target task) of
        (Some text, Some t) \<Rightarrow>
          (let status_prefix = source task @ '' -> '' @ t
           in if \<not> args_in_place args \<and> \<not> (args_dry_run args \<or> args_validate_only args) then
                (let st1 = py_print st (''stdout: '' @ source task);
                     st2 = stdout_write st1 text;
                     st3 = (if \<not> endswith text NL then stdout_write st2 NL else st2)
                 in (None, st3\<lparr>converted := converted st3 + 1\<rparr>, fs))
              else if os_exists os fs t then
                (case os_read_text os fs t of
                   Inl e \<Rightarrow>
                     (case e of
                        OSError exc \<Rightarrow>
                          (None,
                           st\<lparr>failures := failures st @ [''Failed to read existing '' @ t @ '': '' @ exc]\<rparr>,
                           fs)
                      | _ \<Rightarrow> (Some e, st, fs))
                 | Inr existing \<Rightarrow>
                     if existing = text then
                       (None,
                        (py_print st (''skip: '' @ status_prefix @ '' (up-to-date)''))
                          \<lparr>skipped := skipped st + 1\<rparr>,
                        fs)
                     else handle_write os args st fs task t)
              else handle_write os args st fs task t)
      | _ \<Rightarrow> (Some AssertionError, st, fs))"

text \<open>The loop of \<open>process\<close> over the tasks: an exception that escapes a task ends it.\<close>

fun handle_tasks ::
  "'fs os_ops \<Rightarrow> Args \<Rightarrow> GraphConverter \<Rightarrow> 'fs \<Rightarrow> ConversionTask list
   \<Rightarrow> exn option \<times> GraphConverter \<times> 'fs" where
  "handle_tasks os args st fs [] = (None, st, fs)"
| "handle_tasks os args st fs (task # rest) =
     (case handle_task os args st fs task of
        (Some e, st', fs') \<Rightarrow> (Some e, st', fs')
      | (None, st', fs') \<Rightarrow> handle_tasks os args st' fs' rest)"

subsection \<open>The run\<close>

definition summary :: "GraphConverter \<Rightarrow> string" where
  "summary st =
     ''Summary: converted='' @ show_nat (converted st) @ '', skipped='' @ show_nat (skipped st)
     @ '', failed='' @ show_nat (length (failures st))"

text \<open>
  The \<open>try\<close> block of \<open>process\<close>. It raises (\<open>Inl\<close>), returns 0 at once when no task was
  collected (\<open>Inr (Some 0)\<close>), or runs to its end (\<open>Inr None\<close>).
\<close>

definition root_given :: "Args \<Rightarrow> bool" where
  "root_given args = (case args_root args of None \<Rightarrow> False | Some r \<Rightarrow> r \<noteq> [])"

definition process_try ::
  "ext \<Rightarrow> 'fs os_ops \<Rightarrow> Args \<Rightarrow> 'fs \<Rightarrow> (exn + int option) \<times> GraphConverter \<times> 'fs" where
  "process_try X os args fs =
     (case collect_tasks os args fs init_converter of
        (Some e, st, tasks) \<Rightarrow> (Inl e, st, fs)
      | (None, st, tasks) \<Rightarrow>
          if tasks = [] then
            (Inr (Some 0), warn st ''No files matched input arguments; nothing to do'', fs)
          else
            (case load_tasks X os fs tasks of
               Inl e \<Rightarrow> (Inl e, st, fs)
             | Inr loaded \<Rightarrow>
                 (case (if root_given args then cross_validate X loaded else None) of
                    Some e \<Rightarrow> (Inl e, st, fs)
                  | None \<Rightarrow>
                      (case handle_tasks os args st fs loaded of
                         (Some e, st', fs') \<Rightarrow> (Inl e, st', fs')
                       | (None, st', fs') \<Rightarrow> (Inr None, st', fs')))))"

text \<open>
  \<open>process\<close> returns its exit code (\<open>Inr\<close>), or lets an exception other than
  \<open>ConversionError\<close> escape (\<open>Inl\<close>).
\<close>

definition process ::
  "ext \<Rightarrow> 'fs os_ops \<Rightarrow> Args \<Rightarrow> 'fs \<Rightarrow> (exn + int) \<times> GraphConverter \<times> 'fs" where
  "process X os args fs =
     (case process_try X os args fs of
        (Inl e, st, fs') \<Rightarrow>
          (case e of
             ConversionError exc \<Rightarrow> (Inr 1, error st exc, fs')
           | _ \<Rightarrow> (Inl e, st, fs'))
      | (Inr (Some code), st, fs') \<Rightarrow> (Inr code, st, fs')
      | (Inr None, st, fs') \<Rightarrow>
          (let st2 = py_print st (summary st)
           in if failures st2 \<noteq> [] then (Inr 1, foldl error st2 (failures st2), fs')
              else (Inr 0, st2, fs')))"

text \<open>
  The exit status of the interpreter: the code \<open>process\<close> returns (\<open>sys.exit(main())\<close>),
  and 1 when an exception escapes.
\<close>

definition exit_status :: "(exn + int) \<Rightarrow> int" where
  "exit_status r = (case r of Inr code \<Rightarrow> code | Inl e \<Rightarrow> 1)"

section \<open>An in-memory file system\<close>

text \<open>
  An instance of the file operations, to run the converter on concrete trees: a file
  system is a list of paths with what they hold, a text file, a directory, or a file
  whose bytes are not UTF-8.
\<close>

datatype node = File string | Dir | Binary

type_synonym mem_fs = "(pathname \<times> node) list"

definition mem_exists :: "mem_fs \<Rightarrow> pathname \<Rightarrow> bool" where
  "mem_exists fs p = (map_of fs p \<noteq> None)"

definition mem_read_text :: "mem_fs \<Rightarrow> pathname \<Rightarrow> exn + string" where
  "mem_read_text fs p =
     (case map_of fs p of
        None \<Rightarrow> Inl (OSError (''[Errno 2] No such file or directory: '' @ p))
      | Some Dir \<Rightarrow> Inl (OSError (''[Errno 21] Is a directory: '' @ p))
      | Some Binary \<Rightarrow> Inl UnicodeDecodeError
      | Some (File s) \<Rightarrow> Inr s)"

fun mem_mkdir_fuel :: "nat \<Rightarrow> mem_fs \<Rightarrow> pathname \<Rightarrow> exn option \<times> mem_fs" where
  "mem_mkdir_fuel 0 fs d = (Some (OSError (''[Errno 2] No such file or directory: '' @ d)), fs)"
| "mem_mkdir_fuel (Suc n) fs d =
     (case map_of fs d of
        Some Dir \<Rightarrow> (None, fs)
      | Some _ \<Rightarrow> (Some (OSError (''[Errno 17] File exists: '' @ d)), fs)
      | None \<Rightarrow>
          (case mem_mkdir_fuel n fs (path_parent d) of
             (Some e, fs') \<Rightarrow> (Some e, fs')
           | (None, fs') \<Rightarrow> (None, fs' @ [(d, Dir)])))"

definition mem_mkdir :: "mem_fs \<Rightarrow> pathname \<Rightarrow> exn option \<times> mem_fs" where
  "mem_mkdir fs d = mem_mkdir_fuel (Suc (length d)) fs d"

definition mem_write_text :: "mem_fs \<Rightarrow> pathname \<Rightarrow> string \<Rightarrow> exn option \<times> mem_fs" where
  "mem_write_text fs p s =
     (if map_of fs p = Some Dir then (Some (OSError (''[Errno 21] Is a directory: '' @ p)), fs)
      else if map_of fs (path_parent p) \<noteq> Some Dir then
        (Some (OSError (''[Errno 2] No such file or directory: '' @ p)), fs)
      else (None, AList.update p (File s) fs))"

definition mem_copy2 :: "mem_fs \<Rightarrow> pathname \<Rightarrow> pathname \<Rightarrow> exn option \<times> mem_fs" where
  "mem_copy2 fs src dst =
     (case map_of fs src of
        None \<Rightarrow> (Some (OSError (''[Errno 2] No such file or directory: '' @ src)), fs)
      | Some Dir \<Rightarrow> (Some (OSError (''[Errno 21] Is a directory: '' @ src)), fs)
      | Some n \<Rightarrow>
          (let dst' = (if map_of fs dst = Some Dir then joinpath dst (path_name src) else dst)
           in if dst' = src then (Some (OSError (src @ '' and '' @ dst' @ '' are the same file'')), fs)
              else if map_of fs dst' = Some Dir then
                (Some (OSError (''[Errno 21] Is a directory: '' @ dst')), fs)
              else if map_of fs (path_parent dst') \<noteq> Some Dir then
                (Some (OSError (''[Errno 2] No such file or directory: '' @ dst')), fs)
              else (None, AList.update dst' n fs)))"

text \<open>A name for the temporary file that no path of the file system has.\<close>

definition fresh_name :: "mem_fs \<Rightarrow> string" where
  "fresh_name fs = ''tmp'' @ replicate (Suc (foldr max (map (\<lambda>e. length (fst e)) fs) 0)) CHR ''x''"

definition mem_write_temp :: "mem_fs \<Rightarrow> pathname \<Rightarrow> string \<Rightarrow> (exn + pathname) \<times> mem_fs" where
  "mem_write_temp fs d s =
     (if map_of fs d \<noteq> Some Dir then
        (Inl (OSError (''[Errno 2] No such file or directory: '' @ d)), fs)
      else (let tmp_path = joinpath d (fresh_name fs)
            in (Inr tmp_path, fs @ [(tmp_path, File s)])))"

definition mem_replace :: "mem_fs \<Rightarrow> pathname \<Rightarrow> pathname \<Rightarrow> exn option \<times> mem_fs" where
  "mem_replace fs src dst =
     (case map_of fs src of
        None \<Rightarrow> (Some (OSError (''[Errno 2] No such file or directory: '' @ src)), fs)
      | Some n \<Rightarrow>
          if map_of fs dst = Some Dir \<and> n \<noteq> Dir then
            (Some (OSError (''[Errno 21] Is a directory: '' @ dst)), fs)
          else (None, AList.update dst n (AList.delete src fs)))"

definition mem_glob_json :: "mem_fs \<Rightarrow> pathname \<Rightarrow> pathname list" where
  "mem_glob_json fs d =
     filter (\<lambda>p. path_parent p = d \<and> endswith (path_name p) ''.json'') (map fst fs)"

definition mem_os :: "mem_fs os_ops" where
  "mem_os =
     \<lparr>os_resolve = (\<lambda>fs p. p),
      os_exists = mem_exists,
      os_glob_json = mem_glob_json,
      os_read_text = mem_read_text,
      os_mkdir = mem_mkdir,
      os_copy2 = mem_copy2,
      os_write_temp = mem_write_temp,
      os_replace = mem_replace,
      os_write_text = mem_write_text\<rparr>"

text \<open>
  Library functions for concrete runs: \<open>unquote\<close> on names without a percent sign, a
  parser and an emitter that know the empty array, and a validator that accepts.
\<close>

definition toy_ext :: ext where
  "toy_ext =
     \<lparr>unquote = (\<lambda>s. s),
      json_load = (\<lambda>s. if s = ''[]'' then Inr (JArr []) else Inl ''Expecting value''),
      iter_errors = (\<lambda>k d. []),
      YAML_EMITTER_dump = (\<lambda>d. ''[]'' @ NL),
      py_repr = (\<lambda>v. ''[]'')\<rparr>"

definition default_args :: Args where
  "default_args =
     \<lparr>args_root = None,
      args_files = None,
      args_output_ext = ''.yaml'',
      args_in_place = True,
      args_backup = False,
      args_dry_run = False,
      args_atomic = False,
      args_validate_only = False,
      args_schema_migrate = False,
      args_strict = False,
      args_verbose = False\<rparr>"

section \<open>Notions used to state the properties\<close>

text \<open>The number of newline characters a text ends with.\<close>

definition trailing_newlines :: "string \<Rightarrow> nat" where
  "trailing_newlines s = length (takeWhile (\<lambda>c. c = CHR 0x0A) (rev s))"


definition same_counts :: "GraphConverter \<Rightarrow> GraphConverter \<Rightarrow> bool" where
  "same_counts st st' =
     (converted st' = converted st \<and> skipped st' = skipped st \<and> failures st' = failures st)"




text \<open>
  Concrete trees: a graph directory that holds only \<open>variables.json\<close>; the same after a
  conversion; and one where a directory stands at the target path.
\<close>

definition tree_fresh :: mem_fs where
  "tree_fresh = [(''/'', Dir), (''/g'', Dir), (''/g/variables.json'', File ''[]'')]"



definition root_args :: Args where
  "root_args = default_args\<lparr>args_root := Some ''/g''\<rparr>"

definition variables_task :: ConversionTask where
  "variables_task =
     \<lparr>source = ''/g/variables.json'', kind = GRAPH_VARIABLES, output_ext = ''.yaml'',
      root = ''/g'', schema_migrate = False, verbose = False, encoded_id = None,
      data = JArr [], yaml_text = Some (''[]'' @ NL), target = Some ''/g/variables.yaml''\<rparr>"



definition tree_malformed :: mem_fs where
  "tree_malformed = [(''/'', Dir), (''/g'', Dir), (''/g/variables.json'', File ''[oops'')]"

text \<open>
  A graph with one node and one edge whose target names no node, and library functions
  that parse the two files.
\<close>

definition node_a_text :: string where
  "node_a_text = ''{\"id\": \"a\", \"template\": \"t\"}''"

definition edge_ab_text :: string where
  "edge_ab_text =
     ''{\"source\": \"a\", \"sourceHandle\": \"o\", \"target\": \"b\", \"targetHandle\": \"i\"}''"

definition node_a :: json where
  "node_a = JObj [(''id'', JStr ''a''), (''template'', JStr ''t'')]"

definition edge_ab :: json where
  "edge_ab =
     JObj [(''source'', JStr ''a''), (''sourceHandle'', JStr ''o''),
           (''target'', JStr ''b''), (''targetHandle'', JStr ''i'')]"

definition graph_ext :: ext where
  "graph_ext =
     toy_ext\<lparr>json_load :=
       (\<lambda>s. if s = node_a_text then Inr node_a
            else if s = edge_ab_text then Inr edge_ab
            else json_load toy_ext s)\<rparr>"

definition tree_dangling :: mem_fs where
  "tree_dangling =
     [(''/'', Dir), (''/g'', Dir),
      (''/g/nodes'', Dir), (''/g/nodes/a.json'', File node_a_text),
      (''/g/edges'', Dir), (''/g/edges/e.json'', File edge_ab_text)]"



text \<open>
  The task as \<open>load_tasks\<close> validates it: with the parsed document \<open>d\<close>, normalized when
  \<open>schema_migrate\<close> is set.
\<close>

definition parsed_task :: "ext \<Rightarrow> ConversionTask \<Rightarrow> json \<Rightarrow> ConversionTask" where
  "parsed_task X task d =
     (if schema_migrate task then apply_normalization X (task\<lparr>data := d\<rparr>) else task\<lparr>data := d\<rparr>)"

text \<open>A node task for the file \<open>nodes/n1.json\<close> with a given document.\<close>

definition node_task :: "json \<Rightarrow> ConversionTask" where
  "node_task d =
     (new_task (root_args\<lparr>args_schema_migrate := True\<rparr>) (Some ''/g'') ''/g/nodes/n1.json''
        GRAPH_NODE)\<lparr>data := d\<rparr>"

text \<open>
  The key of a variables entry as the key check reads it, trimmed; and the invariant of
  the loop of that check: \<open>seen\<close> maps every key of the entries passed so far, which are
  non-empty and pairwise different, to its index.
\<close>

definition entry_key :: "ext \<Rightarrow> json \<Rightarrow> string" where
  "entry_key X entry = strip (py_str X (dict_get (dict_items entry) ''key'' (JStr [])))"

definition seen_inv :: "(string \<rightharpoonup> nat) \<Rightarrow> string list \<Rightarrow> bool" where
  "seen_inv seen pre =
     (distinct pre \<and> [] \<notin> set pre
      \<and> (\<forall>k i. seen k = Some i \<longleftrightarrow> i < length pre \<and> pre ! i = k))"

text \<open>
  The documents the \<open>variables\<close> schema of \<open>SCHEMAS\<close> accepts: an array of objects, each with
  a string \<open>key\<close>, a string \<open>value\<close> and no other property.
\<close>

definition variables_entry_ok :: "json \<Rightarrow> bool" where
  "variables_entry_ok entry =
     (case entry of
        JObj kvs \<Rightarrow>
          (case map_of kvs ''key'' of Some (JStr k) \<Rightarrow> True | _ \<Rightarrow> False)
          \<and> (case map_of kvs ''value'' of Some (JStr v) \<Rightarrow> True | _ \<Rightarrow> False)
          \<and> list_all (\<lambda>k. k = ''key'' \<or> k = ''value'') (map fst kvs)
      | _ \<Rightarrow> False)"

definition conforms_variables :: "json \<Rightarrow> bool" where
  "conforms_variables d =
     (case d of JArr entries \<Rightarrow> list_all variables_entry_ok entries | _ \<Rightarrow> False)"

text \<open>A variables task for \<open>variables.json\<close> with a given document.\<close>

definition vars_task :: "json \<Rightarrow> ConversionTask" where
  "vars_task d = variables_task\<lparr>data := d, yaml_text := None, target := None\<rparr>"

definition var_entry :: "string \<Rightarrow> string \<Rightarrow> json" where
  "var_entry k v = JObj [(''key'', JStr k), (''value'', JStr v)]"

text \<open>
  The node tasks and the edge tasks of a run, the node identifiers \<open>cross_validate\<close>
  collects, and the trimmed \<open>source\<close> or \<open>target\<close> of an edge as it reads them.
\<close>

definition node_tasks :: "ConversionTask list \<Rightarrow> ConversionTask list" where
  "node_tasks tasks = filter (\<lambda>task. kind task = GRAPH_NODE) tasks"

definition edge_tasks :: "ConversionTask list \<Rightarrow> ConversionTask list" where
  "edge_tasks tasks = filter (\<lambda>task. kind task = GRAPH_EDGE) tasks"

definition collected_ids :: "ext \<Rightarrow> ConversionTask list \<Rightarrow> string set" where
  "collected_ids X tasks = node_id_set X (node_tasks tasks)"

definition edge_endpoint :: "ext \<Rightarrow> string \<Rightarrow> ConversionTask \<Rightarrow> string" where
  "edge_endpoint X field edge_task =
     strip (py_str X
       (dict_get (if is_dict (data edge_task) then dict_items (data edge_task) else []) field
          (JStr [])))"

text \<open>Loaded node and edge tasks of the graph \<open>/g\<close>.\<close>

definition example_node :: "string \<Rightarrow> string \<Rightarrow> ConversionTask" where
  "example_node name ident =
     (new_task root_args (Some ''/g'') (''/g/nodes/'' @ name @ ''.json'') GRAPH_NODE)
       \<lparr>data := JObj [(''id'', JStr ident), (''template'', JStr ''t'')]\<rparr>"

definition example_edge :: "string \<Rightarrow> string \<Rightarrow> string \<Rightarrow> ConversionTask" where
  "example_edge name s t =
     (new_task root_args (Some ''/g'') (''/g/edges/'' @ name @ ''.json'') GRAPH_EDGE)
       \<lparr>data := JObj [(''source'', JStr s), (''sourceHandle'', JStr ''o''),
                     (''target'', JStr t), (''targetHandle'', JStr ''i'')]\<rparr>"

text \<open>
  Violations whose paths can all be compared with each other (no comparison raises), and
  a list of violations in the order of their paths: no violation is followed by one
  with a smaller path.
\<close>

definition comparable_paths :: "ValidationError list \<Rightarrow> bool" where
  "comparable_paths errors =
     (\<forall>a\<in>set errors. \<forall>b\<in>set errors. deque_lt (path a) (path b) \<noteq> None)"

definition path_sorted :: "ValidationError list \<Rightarrow> bool" where
  "path_sorted errors = sorted_wrt (\<lambda>a b. deque_lt (path b) (path a) = Some False) errors"

text \<open>
  A node document without \<open>id\<close>, with a number as \<open>template\<close> and a string as \<open>position.x\<close>,
  the three violations the validator reports for it, in the order it reports them, and
  library functions that parse and validate this document.
\<close>

definition bad_node_text :: string where
  "bad_node_text = ''{\"template\": 7, \"position\": {\"x\": \"a\"}}''"

definition bad_node :: json where
  "bad_node = JObj [(''template'', JInt 7), (''position'', JObj [(''x'', JStr ''a'')])]"

definition bad_node_errors :: "ValidationError list" where
  "bad_node_errors =
     [\<lparr>path = [], absolute_path = [],
       message = [CHR 0x27] @ ''id'' @ [CHR 0x27] @ '' is a required property''\<rparr>,
      \<lparr>path = [Key ''template''], absolute_path = [Key ''template''],
       message = ''7 is not of type '' @ [CHR 0x27] @ ''string'' @ [CHR 0x27]\<rparr>,
      \<lparr>path = [Key ''position'', Key ''x''], absolute_path = [Key ''position'', Key ''x''],
       message = [CHR 0x27] @ ''a'' @ [CHR 0x27] @ '' is not of type ''
                 @ [CHR 0x27] @ ''number'' @ [CHR 0x27]\<rparr>]"

definition validating_ext :: ext where
  "validating_ext =
     toy_ext\<lparr>json_load := (\<lambda>s. if s = bad_node_text then Inr bad_node else json_load toy_ext s),
             iter_errors := (\<lambda>k d. if d = bad_node then bad_node_errors else [])\<rparr>"

definition tree_bad_node :: mem_fs where
  "tree_bad_node =
     [(''/'', Dir), (''/g'', Dir), (''/g/nodes'', Dir), (''/g/nodes/n1.json'', File bad_node_text)]"

section \<open>Properties of the converter\<close>

subsection \<open>Rendering\<close>

lemma endswith_NL: "endswith s NL \<longleftrightarrow> s \<noteq> [] \<and> last s = CHR 0x0A"
proof (cases s rule: rev_cases)
  case Nil
  then show ?thesis by (simp add: endswith_def NL_def)
next
  case (snoc ys y)
  then show ?thesis by (simp add: endswith_def NL_def)
qed

lemma trailing_newlines_snoc:
  "trailing_newlines (s @ [c]) = (if c = CHR 0x0A then Suc (trailing_newlines s) else 0)"
  by (simp add: trailing_newlines_def)

lemma trailing_newlines_0: "\<not> endswith s NL \<Longrightarrow> trailing_newlines s = 0"
  by (cases s rule: rev_cases) (simp_all add: endswith_NL trailing_newlines_def)

lemma trailing_newlines_pos: "endswith s NL \<Longrightarrow> 0 < trailing_newlines s"
  by (cases s rule: rev_cases) (simp_all add: endswith_NL trailing_newlines_def)

text \<open>
  Claim C9. The rendered text always ends with a newline: \<open>render_yaml\<close> appends one
  when the emitter's text has none, and appends nothing otherwise. So the rendered text
  ends with exactly one newline whenever the text \<open>YAML_EMITTER.dump\<close> produced ends
  with at most one, which is what the emitter does: it closes the document with a single
  line break.
\<close>

theorem render_yaml_trailing_newline:
  "endswith (render_yaml X d) NL \<and>
   (trailing_newlines (YAML_EMITTER_dump X d) \<le> 1 \<longrightarrow> trailing_newlines (render_yaml X d) = 1)"
proof (cases "endswith (YAML_EMITTER_dump X d) NL")
  case True
  then have "render_yaml X d = YAML_EMITTER_dump X d"
    by (simp add: render_yaml_def)
  with True trailing_newlines_pos [OF True] show ?thesis by auto
next
  case False
  then have r: "render_yaml X d = YAML_EMITTER_dump X d @ NL"
    by (simp add: render_yaml_def)
  have "endswith (YAML_EMITTER_dump X d @ NL) NL"
    by (simp add: endswith_def NL_def)
  moreover have "trailing_newlines (YAML_EMITTER_dump X d @ NL) = 1"
    using trailing_newlines_0 [OF False] by (simp add: NL_def trailing_newlines_snoc)
  ultimately show ?thesis using r by simp
qed

theorem render_yaml_trailing_newline_witness:
  "trailing_newlines (YAML_EMITTER_dump toy_ext (JArr [])) \<le> 1 \<and>
   render_yaml toy_ext (JArr []) = ''[]'' @ NL \<and>
   trailing_newlines (render_yaml toy_ext (JArr [])) = 1"
proof -
  have h: "trailing_newlines (YAML_EMITTER_dump toy_ext (JArr [])) \<le> 1"
    by (simp add: toy_ext_def trailing_newlines_def NL_def)
  have "render_yaml toy_ext (JArr []) = ''[]'' @ NL"
    by (simp add: render_yaml_def toy_ext_def endswith_def NL_def)
  with h render_yaml_trailing_newline [of toy_ext "JArr []"] show ?thesis by simp
qed

subsection \<open>The writer\<close>

lemma same_counts_refl [simp]: "same_counts st st"
  by (simp add: same_counts_def)

lemma same_counts_print [simp]:
  "same_counts st (stdout_write st s)" "same_counts st (py_print st s)"
  "same_counts st (log args st s)" "same_counts st (warn st s)" "same_counts st (error st s)"
  by (simp_all add: same_counts_def stdout_write_def py_print_def log_def warn_def error_def)

lemma counts_print [simp]:
  "converted (stdout_write st s) = converted st" "skipped (stdout_write st s) = skipped st"
  "failures (stdout_write st s) = failures st"
  "converted (py_print st s) = converted st" "skipped (py_print st s) = skipped st"
  "failures (py_print st s) = failures st"
  "converted (log args st s) = converted st" "skipped (log args st s) = skipped st"
  "failures (log args st s) = failures st"
  "converted (warn st s) = converted st" "skipped (warn st s) = skipped st"
  "failures (warn st s) = failures st"
  "converted (error st s) = converted st" "skipped (error st s) = skipped st"
  "failures (error st s) = failures st"
  by (simp_all add: stdout_write_def py_print_def log_def warn_def error_def)

lemma same_counts_trans: "same_counts a b \<Longrightarrow> same_counts b c \<Longrightarrow> same_counts a c"
  by (simp add: same_counts_def)


















subsection \<open>Collecting and loading leave the counters and the files alone\<close>

lemma add_task_counts:
  "add_task args rd p k (st, ts) = (r, st', ts') \<Longrightarrow> same_counts st st'"
  by (cases k) (auto simp: add_task_def Let_def split: if_splits)

lemma collect_files_counts:
  "collect_files os args fs rd files (st, ts) = (r, st', ts') \<Longrightarrow> same_counts st st'"
proof (induction files arbitrary: st ts)
  case Nil
  then show ?case by simp
next
  case (Cons f files)
  show ?case
  proof (cases "os_exists os fs (os_resolve os fs f)")
    case False
    with Cons.prems show ?thesis by (simp add: Let_def)
  next
    case True
    obtain r1 st1 ts1 where a:
      "add_task args rd (os_resolve os fs f) (determine_kind (os_resolve os fs f)) (st, ts) = (r1, st1, ts1)"
      by (cases "add_task args rd (os_resolve os fs f) (determine_kind (os_resolve os fs f)) (st, ts)") auto
    from add_task_counts [OF a] have sc: "same_counts st st1" .
    show ?thesis
    proof (cases r1)
      case None
      with Cons.prems True a have "collect_files os args fs rd files (st1, ts1) = (r, st', ts')"
        by (simp add: Let_def)
      from Cons.IH [OF this] sc show ?thesis by (rule same_counts_trans [rotated])
    next
      case (Some e)
      with Cons.prems True a sc show ?thesis by (simp add: Let_def)
    qed
  qed
qed

lemma collect_tasks_counts:
  "collect_tasks os args fs st = (r, st', ts) \<Longrightarrow> same_counts st st'"
  by (auto simp: collect_tasks_def Let_def dest: collect_files_counts
           split: option.splits if_splits)

lemma load_tasks_length:
  "load_tasks X os fs tasks = Inr loaded \<Longrightarrow> length loaded = length tasks"
  by (induction tasks arbitrary: loaded) (auto split: sum.splits)

lemma load_tasks_fails:
  "(\<exists>e. load_tasks X os fs tasks = Inl e) \<longleftrightarrow> (\<exists>task\<in>set tasks. \<exists>e. load_task X os fs task = Inl e)"
proof (induction tasks)
  case Nil
  show ?case by simp
next
  case (Cons task rest)
  show ?case
  proof (cases "load_task X os fs task")
    case (Inl e)
    then show ?thesis by auto
  next
    case (Inr t')
    with Cons show ?thesis
      by (cases "load_tasks X os fs rest") auto
  qed
qed

lemma failures_foldl_error [simp]: "failures (foldl error st ms) = failures st"
  by (induction ms arbitrary: st) simp_all

lemma converted_foldl_error [simp]: "converted (foldl error st ms) = converted st"
  by (induction ms arbitrary: st) simp_all

lemma skipped_foldl_error [simp]: "skipped (foldl error st ms) = skipped st"
  by (induction ms arbitrary: st) simp_all

lemma init_counts [simp]:
  "converted init_converter = 0" "skipped init_converter = 0" "failures init_converter = []"
  by (simp_all add: init_converter_def)



lemma process_try_load_raises:
  "collect_tasks os args fs init_converter = (None, st, tasks) \<Longrightarrow> tasks \<noteq> [] \<Longrightarrow>
   load_tasks X os fs tasks = Inl e \<Longrightarrow>
   process_try X os args fs = (Inl e, st, fs)"
  by (simp add: process_try_def)

lemma process_try_cross_raises:
  "collect_tasks os args fs init_converter = (None, st, tasks) \<Longrightarrow> tasks \<noteq> [] \<Longrightarrow>
   load_tasks X os fs tasks = Inr loaded \<Longrightarrow> root_given args \<Longrightarrow>
   cross_validate X loaded = Some e \<Longrightarrow>
   process_try X os args fs = (Inl e, st, fs)"
  by (simp add: process_try_def)




lemma process_raises:
  "process_try X os args fs = (Inl e, st, fs') \<Longrightarrow>
   process X os args fs =
     (case e of ConversionError exc \<Rightarrow> (Inr 1, error st exc, fs') | _ \<Rightarrow> (Inl e, st, fs'))"
  by (simp add: process_def)


subsection \<open>Outcomes\<close>



subsection \<open>I/O failures\<close>



text \<open>What a failing step of \<open>write_output\<close> raises, \<open>write_output\<close> raises.\<close>

lemma write_output_mkdir_raises:
  "yaml_text task = Some y \<Longrightarrow> target task = Some t \<Longrightarrow>
   os_mkdir os fs (path_parent t) = (Some e, fs1) \<Longrightarrow>
   write_output os args st fs task = (Some e, st, fs1)"
  by (simp add: write_output_def)

lemma write_output_backup_raises:
  "yaml_text task = Some y \<Longrightarrow> target task = Some t \<Longrightarrow>
   os_mkdir os fs (path_parent t) = (None, fs1) \<Longrightarrow>
   args_backup args \<Longrightarrow> os_exists os fs1 (source task) \<Longrightarrow>
   with_suffix (source task) (path_suffix (source task) @ ''.bak'') = Inr backup \<Longrightarrow>
   os_copy2 os fs1 (source task) backup = (Some e, fs2) \<Longrightarrow>
   write_output os args st fs task = (Some e, st, fs2)"
  by (simp add: write_output_def write_backup_def)

lemma write_output_target_raises:
  "yaml_text task = Some y \<Longrightarrow> target task = Some t \<Longrightarrow>
   os_mkdir os fs (path_parent t) = (None, fs1) \<Longrightarrow>
   write_backup os args st fs1 task = (None, st2, fs2) \<Longrightarrow>
   write_target os args fs2 t y = (Some e, fs3) \<Longrightarrow>
   write_output os args st fs task = (Some e, st2, fs3)"
  by (simp add: write_output_def)






subsection \<open>Targets that are up to date\<close>







subsection \<open>Dry runs\<close>









subsection \<open>Loading\<close>

lemma load_task_unreadable:
  "os_read_text os fs (source task) = Inl e \<Longrightarrow> load_task X os fs task = Inl e"
  by (simp add: load_task_def)

lemma load_task_parse_error:
  "os_read_text os fs (source task) = Inr content \<Longrightarrow> json_load X content = Inl exc \<Longrightarrow>
   load_task X os fs task =
     Inl (ConversionError (''Failed to parse JSON '' @ source task @ '': '' @ exc))"
  by (simp add: load_task_def)

lemma parsed_task_source [simp]: "source (parsed_task X task d) = source task"
  by (simp add: parsed_task_def apply_normalization_def split: option.splits)

lemma parsed_task_kind [simp]: "kind (parsed_task X task d) = kind task"
  by (simp add: parsed_task_def apply_normalization_def split: option.splits)

lemma load_task_sort_raises:
  "os_read_text os fs (source task) = Inr content \<Longrightarrow> json_load X content = Inr d \<Longrightarrow>
   sorted_by_path (iter_errors X (kind task) (data (parsed_task X task d))) = Inl e \<Longrightarrow>
   load_task X os fs task = Inl e"
  by (simp add: load_task_def Let_def parsed_task_def [symmetric])

lemma load_task_validation_error:
  "os_read_text os fs (source task) = Inr content \<Longrightarrow> json_load X content = Inr d \<Longrightarrow>
   sorted_by_path (iter_errors X (kind task) (data (parsed_task X task d))) = Inr errors \<Longrightarrow>
   errors \<noteq> [] \<Longrightarrow>
   load_task X os fs task =
     Inl (ConversionError
       (''Validation failed for '' @ source task @ '': ''
        @ join ''; '' (map format_validation_error errors)))"
  by (simp add: load_task_def Let_def parsed_task_def [symmetric])

lemma load_task_variables_error:
  "os_read_text os fs (source task) = Inr content \<Longrightarrow> json_load X content = Inr d \<Longrightarrow>
   sorted_by_path (iter_errors X (kind task) (data (parsed_task X task d))) = Inr [] \<Longrightarrow>
   kind task = GRAPH_VARIABLES \<Longrightarrow>
   assert_unique_variable_keys X (parsed_task X task d) = Some e \<Longrightarrow>
   load_task X os fs task = Inl e"
  by (simp add: load_task_def Let_def parsed_task_def [symmetric])

subsection \<open>Fatal errors\<close>

lemma cross_validate_Nil [simp]: "cross_validate X [] = None"
  by (simp add: cross_validate_def node_id_set_def)

text \<open>
  Claim C3. \<open>process\<close> loads and validates every task, then cross-validates (in root
  mode), and only then handles the first task. So when some task fails to load (its
  JSON does not parse, it violates its schema, or its variables fail the key checks: the
  lemmas above) or the cross-validation fails, the \<open>try\<close> block raises before any task is
  handled: the file system is as it was, no outcome is counted, a \<open>ConversionError\<close> is
  printed as one \<open>[error]\<close> line with return code 1, and the exit status is 1.
\<close>

theorem failed_validation_writes_nothing:
  "collect_tasks os args fs init_converter = (None, st, tasks)
   \<and> ((\<exists>task\<in>set tasks. \<exists>e. load_task X os fs task = Inl e)
      \<or> (\<exists>loaded e. load_tasks X os fs tasks = Inr loaded \<and> root_given args
                     \<and> cross_validate X loaded = Some e))
   \<longrightarrow> (\<exists>e. process_try X os args fs = (Inl e, st, fs)
            \<and> process X os args fs =
                (case e of ConversionError exc \<Rightarrow> (Inr 1, error st exc, fs)
                 | _ \<Rightarrow> (Inl e, st, fs)))
       \<and> exit_status (fst (process X os args fs)) = 1
       \<and> snd (snd (process X os args fs)) = fs
       \<and> converted (fst (snd (process X os args fs))) = 0
       \<and> skipped (fst (snd (process X os args fs))) = 0
       \<and> failures (fst (snd (process X os args fs))) = []"
proof
  assume a: "collect_tasks os args fs init_converter = (None, st, tasks)
   \<and> ((\<exists>task\<in>set tasks. \<exists>e. load_task X os fs task = Inl e)
      \<or> (\<exists>loaded e. load_tasks X os fs tasks = Inr loaded \<and> root_given args
                     \<and> cross_validate X loaded = Some e))"
  then have c: "collect_tasks os args fs init_converter = (None, st, tasks)" by simp
  from collect_tasks_counts [OF c]
  have z: "converted st = 0" "skipped st = 0" "failures st = []"
    by (simp_all add: same_counts_def)
  have "\<exists>e. process_try X os args fs = (Inl e, st, fs)"
  proof (cases "\<exists>task\<in>set tasks. \<exists>e. load_task X os fs task = Inl e")
    case True
    then have ne: "tasks \<noteq> []" by auto
    from True load_tasks_fails [of X os fs tasks] obtain e where
      "load_tasks X os fs tasks = Inl e" by blast
    from process_try_load_raises [OF c ne this] show ?thesis by blast
  next
    case False
    with a obtain loaded e where l: "load_tasks X os fs tasks = Inr loaded"
      and r: "root_given args" and x: "cross_validate X loaded = Some e"
      by blast
    from x have "loaded \<noteq> []" by auto
    with load_tasks_length [OF l] have ne: "tasks \<noteq> []" by auto
    from process_try_cross_raises [OF c ne l r x] show ?thesis by blast
  qed
  then obtain e where p: "process_try X os args fs = (Inl e, st, fs)" by blast
  note q = process_raises [OF p]
  from p q have 1: "\<exists>e. process_try X os args fs = (Inl e, st, fs)
            \<and> process X os args fs =
                (case e of ConversionError exc \<Rightarrow> (Inr 1, error st exc, fs)
                 | _ \<Rightarrow> (Inl e, st, fs))"
    by blast
  from q z have 2: "exit_status (fst (process X os args fs)) = 1
       \<and> snd (snd (process X os args fs)) = fs
       \<and> converted (fst (snd (process X os args fs))) = 0
       \<and> skipped (fst (snd (process X os args fs))) = 0
       \<and> failures (fst (snd (process X os args fs))) = []"
    by (cases e) (simp_all add: exit_status_def)
  from 1 2 show "(\<exists>e. process_try X os args fs = (Inl e, st, fs)
            \<and> process X os args fs =
                (case e of ConversionError exc \<Rightarrow> (Inr 1, error st exc, fs)
                 | _ \<Rightarrow> (Inl e, st, fs)))
       \<and> exit_status (fst (process X os args fs)) = 1
       \<and> snd (snd (process X os args fs)) = fs
       \<and> converted (fst (snd (process X os args fs))) = 0
       \<and> skipped (fst (snd (process X os args fs))) = 0
       \<and> failures (fst (snd (process X os args fs))) = []"
    by blast
qed

theorem failed_validation_writes_nothing_witness:
  "load_task toy_ext mem_os tree_malformed
      (new_task root_args (Some ''/g'') ''/g/variables.json'' GRAPH_VARIABLES)
     = Inl (ConversionError ''Failed to parse JSON /g/variables.json: Expecting value'')
   \<and> exit_status (fst (process toy_ext mem_os root_args tree_malformed)) = 1
   \<and> snd (snd (process toy_ext mem_os root_args tree_malformed)) = tree_malformed
   \<and> cross_validate graph_ext
        [(new_task root_args (Some ''/g'') ''/g/nodes/a.json'' GRAPH_NODE)
           \<lparr>data := node_a, yaml_text := Some (''[]'' @ NL), target := Some ''/g/nodes/a.yaml''\<rparr>,
         (new_task root_args (Some ''/g'') ''/g/edges/e.json'' GRAPH_EDGE)
           \<lparr>data := edge_ab, yaml_text := Some (''[]'' @ NL), target := Some ''/g/edges/e.yaml''\<rparr>]
     = Some (ConversionError ''Edge /g/edges/e.json references missing nodes: b'')
   \<and> exit_status (fst (process graph_ext mem_os root_args tree_dangling)) = 1
   \<and> snd (snd (process graph_ext mem_os root_args tree_dangling)) = tree_dangling
   \<and> failures (fst (snd (process graph_ext mem_os root_args tree_dangling))) = []"
proof -
  let ?v = "new_task root_args (Some ''/g'') ''/g/variables.json'' GRAPH_VARIABLES"
  have c1: "collect_tasks mem_os root_args tree_malformed init_converter
              = (None, init_converter, [?v])"
    by code_simp
  have l1: "load_task toy_ext mem_os tree_malformed ?v
     = Inl (ConversionError ''Failed to parse JSON /g/variables.json: Expecting value'')"
    by code_simp
  then have h1: "(\<exists>task\<in>set [?v]. \<exists>e. load_task toy_ext mem_os tree_malformed task = Inl e)"
    by simp
  from failed_validation_writes_nothing [of mem_os root_args tree_malformed init_converter "[?v]" toy_ext]
    c1 h1
  have r1: "exit_status (fst (process toy_ext mem_os root_args tree_malformed)) = 1
    \<and> snd (snd (process toy_ext mem_os root_args tree_malformed)) = tree_malformed"
    by blast
  let ?n = "new_task root_args (Some ''/g'') ''/g/nodes/a.json'' GRAPH_NODE"
  let ?e = "new_task root_args (Some ''/g'') ''/g/edges/e.json'' GRAPH_EDGE"
  let ?loaded = "[?n\<lparr>data := node_a, yaml_text := Some (''[]'' @ NL), target := Some ''/g/nodes/a.yaml''\<rparr>,
         ?e\<lparr>data := edge_ab, yaml_text := Some (''[]'' @ NL), target := Some ''/g/edges/e.yaml''\<rparr>]"
  have c2: "collect_tasks mem_os root_args tree_dangling init_converter
              = (None, init_converter, [?n, ?e])"
    by code_simp
  have l2: "load_tasks graph_ext mem_os tree_dangling [?n, ?e] = Inr ?loaded"
    by code_simp
  have g2: "root_given root_args"
    by code_simp
  have x2: "cross_validate graph_ext ?loaded
     = Some (ConversionError ''Edge /g/edges/e.json references missing nodes: b'')"
    by code_simp
  from l2 g2 x2 have h2: "\<exists>loaded e. load_tasks graph_ext mem_os tree_dangling [?n, ?e] = Inr loaded
       \<and> root_given root_args \<and> cross_validate graph_ext loaded = Some e"
    by blast
  from failed_validation_writes_nothing [of mem_os root_args tree_dangling init_converter "[?n, ?e]" graph_ext]
    c2 h2
  have r2: "exit_status (fst (process graph_ext mem_os root_args tree_dangling)) = 1
   \<and> snd (snd (process graph_ext mem_os root_args tree_dangling)) = tree_dangling
   \<and> failures (fst (snd (process graph_ext mem_os root_args tree_dangling))) = []"
    by blast
  from l1 r1 x2 r2 show ?thesis by blast
qed

subsection \<open>Normalization\<close>

lemma apply_normalization_assigns:
  assumes "kind task = GRAPH_NODE \<or> kind task = GRAPH_EDGE"
    and "data task = JObj kvs" and "encoded_id task = Some e" and "unquote X e \<noteq> []"
  shows "apply_normalization X task =
           task\<lparr>data := JObj (dict_set kvs ''id''
                    (JStr (py_str X (py_or (dict_get kvs ''id'' JNull) (JStr (unquote X e))))))\<rparr>"
  using assms by (auto simp: apply_normalization_def decode_id_def assign_id_def)

lemma apply_normalization_other:
  "(kind task \<noteq> GRAPH_NODE \<and> kind task \<noteq> GRAPH_EDGE) \<or> \<not> is_dict (data task)
   \<or> encoded_id task = None \<or> (\<exists>e. encoded_id task = Some e \<and> unquote X e = []) \<Longrightarrow>
   apply_normalization X task = task"
  by (auto simp: apply_normalization_def decode_id_def split: option.splits)

text \<open>
  Claim C6, as amended. For a node or edge task whose document is an object and whose
  encoded identifier decodes (\<open>unquote\<close>) to a non-empty string, as every file stem does:
  when the \<open>id\<close> of the document is absent or falsy (\<open>null\<close>, \<open>false\<close>, zero, an empty
  string, list or object), normalization sets it to the decoded identifier, a string;
  when it is a non-empty string, the task is left as it is; any other truthy \<open>id\<close> is
  replaced by its \<open>str\<close>. \<open>load_tasks\<close> normalizes exactly when \<open>schema_migrate\<close> is set.

  The claim as stated says that a non-empty \<open>id\<close> is left untouched. The counterexample
  below is the node document with the \<open>id\<close> 5, a number: normalization replaces it by the
  string \<open>5\<close> (which then passes the schema); and with the \<open>id\<close> 0 the file stem
  replaces it.
\<close>

theorem normalization_backfills_id:
  "((kind task = GRAPH_NODE \<or> kind task = GRAPH_EDGE) \<and> data task = JObj kvs
    \<and> encoded_id task = Some e \<and> unquote X e \<noteq> [] \<longrightarrow>
      (\<not> truthy (dict_get kvs ''id'' JNull) \<longrightarrow>
         apply_normalization X task =
           task\<lparr>data := JObj (dict_set kvs ''id'' (JStr (unquote X e)))\<rparr>)
      \<and> (\<forall>s. map_of kvs ''id'' = Some (JStr s) \<and> s \<noteq> [] \<longrightarrow> apply_normalization X task = task)
      \<and> (truthy (dict_get kvs ''id'' JNull) \<longrightarrow>
           apply_normalization X task =
             task\<lparr>data := JObj (dict_set kvs ''id''
                      (JStr (py_str X (dict_get kvs ''id'' JNull))))\<rparr>))
   \<and> (schema_migrate task \<longrightarrow> parsed_task X task d = apply_normalization X (task\<lparr>data := d\<rparr>))
   \<and> (\<not> schema_migrate task \<longrightarrow> parsed_task X task d = task\<lparr>data := d\<rparr>)"
proof (intro conjI impI allI)
  assume a: "(kind task = GRAPH_NODE \<or> kind task = GRAPH_EDGE) \<and> data task = JObj kvs
    \<and> encoded_id task = Some e \<and> unquote X e \<noteq> []"
  then have n: "apply_normalization X task =
           task\<lparr>data := JObj (dict_set kvs ''id''
                    (JStr (py_str X (py_or (dict_get kvs ''id'' JNull) (JStr (unquote X e))))))\<rparr>"
    by (intro apply_normalization_assigns) auto
  {
    assume "\<not> truthy (dict_get kvs ''id'' JNull)"
    with n show "apply_normalization X task =
           task\<lparr>data := JObj (dict_set kvs ''id'' (JStr (unquote X e)))\<rparr>"
      by (simp add: py_or_def py_str_def)
  next
    fix s
    assume s: "map_of kvs ''id'' = Some (JStr s) \<and> s \<noteq> []"
    then have "dict_set kvs ''id'' (JStr s) = kvs"
      by (simp add: dict_set_def update_triv)
    with n s a show "apply_normalization X task = task"
      by (simp add: py_or_def py_str_def dict_get_def)
  next
    assume "truthy (dict_get kvs ''id'' JNull)"
    with n show "apply_normalization X task =
             task\<lparr>data := JObj (dict_set kvs ''id''
                      (JStr (py_str X (dict_get kvs ''id'' JNull))))\<rparr>"
      by (simp add: py_or_def)
  }
next
  assume "schema_migrate task"
  then show "parsed_task X task d = apply_normalization X (task\<lparr>data := d\<rparr>)"
    by (simp add: parsed_task_def)
next
  assume "\<not> schema_migrate task"
  then show "parsed_task X task d = task\<lparr>data := d\<rparr>"
    by (simp add: parsed_task_def)
qed

theorem normalization_overwrites_counterexample:
  "data (apply_normalization toy_ext (node_task (JObj [(''id'', JInt 5), (''template'', JStr ''t'')])))
     = JObj [(''id'', JStr ''5''), (''template'', JStr ''t'')]
   \<and> data (apply_normalization toy_ext (node_task (JObj [(''id'', JInt 0), (''template'', JStr ''t'')])))
     = JObj [(''id'', JStr ''n1''), (''template'', JStr ''t'')]"
  by code_simp

theorem normalization_backfills_id_witness:
  "apply_normalization toy_ext (node_task (JObj [(''template'', JStr ''t'')]))
     = node_task (JObj [(''template'', JStr ''t''), (''id'', JStr ''n1'')])
   \<and> apply_normalization toy_ext (node_task (JObj [(''id'', JStr ''x''), (''template'', JStr ''t'')]))
     = node_task (JObj [(''id'', JStr ''x''), (''template'', JStr ''t'')])
   \<and> apply_normalization toy_ext (node_task (JObj [(''id'', JInt 5), (''template'', JStr ''t'')]))
     = node_task (JObj [(''id'', JStr ''5''), (''template'', JStr ''t'')])
   \<and> parsed_task toy_ext (node_task JNull) (JObj [(''template'', JStr ''t'')])
     = node_task (JObj [(''template'', JStr ''t''), (''id'', JStr ''n1'')])"
proof -
  let ?absent = "[(''template'', JStr ''t'')]"
  let ?named = "[(''id'', JStr ''x''), (''template'', JStr ''t'')]"
  let ?number = "[(''id'', JInt 5), (''template'', JStr ''t'')]"
  have h: "\<And>kvs. (kind (node_task (JObj kvs)) = GRAPH_NODE \<or> kind (node_task (JObj kvs)) = GRAPH_EDGE)
      \<and> data (node_task (JObj kvs)) = JObj kvs
      \<and> encoded_id (node_task (JObj kvs)) = Some ''n1'' \<and> unquote toy_ext ''n1'' \<noteq> []"
    by (simp add: node_task_def new_task_def toy_ext_def path_stem_def path_name_def path_suffix_def)
  note T = normalization_backfills_id [THEN conjunct1, rule_format, OF h]
  have a1: "\<not> truthy (dict_get ?absent ''id'' JNull)" by code_simp
  have e1: "(node_task (JObj ?absent))\<lparr>data := JObj (dict_set ?absent ''id'' (JStr (unquote toy_ext ''n1'')))\<rparr>
              = node_task (JObj [(''template'', JStr ''t''), (''id'', JStr ''n1'')])"
    by code_simp
  from T [THEN conjunct1, rule_format, OF a1] e1
  have c1: "apply_normalization toy_ext (node_task (JObj ?absent))
     = node_task (JObj [(''template'', JStr ''t''), (''id'', JStr ''n1'')])"
    by simp
  have a2: "map_of ?named ''id'' = Some (JStr ''x'') \<and> ''x'' \<noteq> []" by simp
  from T [THEN conjunct2, THEN conjunct1, rule_format, OF a2]
  have c2: "apply_normalization toy_ext (node_task (JObj ?named)) = node_task (JObj ?named)" .
  have a3: "truthy (dict_get ?number ''id'' JNull)" by code_simp
  have e3: "(node_task (JObj ?number))\<lparr>data := JObj (dict_set ?number ''id''
                      (JStr (py_str toy_ext (dict_get ?number ''id'' JNull))))\<rparr>
              = node_task (JObj [(''id'', JStr ''5''), (''template'', JStr ''t'')])"
    by code_simp
  from T [THEN conjunct2, THEN conjunct2, rule_format, OF a3] e3
  have c3: "apply_normalization toy_ext (node_task (JObj ?number))
     = node_task (JObj [(''id'', JStr ''5''), (''template'', JStr ''t'')])"
    by simp
  have m: "schema_migrate (node_task JNull)" by code_simp
  have e4: "(node_task JNull)\<lparr>data := JObj ?absent\<rparr> = node_task (JObj ?absent)"
    by code_simp
  from normalization_backfills_id [THEN conjunct2, THEN conjunct1, rule_format, OF m,
      of toy_ext "JObj ?absent"] e4 c1
  have c4: "parsed_task toy_ext (node_task JNull) (JObj ?absent)
     = node_task (JObj [(''template'', JStr ''t''), (''id'', JStr ''n1'')])"
    by simp
  from c1 c2 c3 c4 show ?thesis by blast
qed

subsection \<open>Unique variable keys\<close>

lemma seen_inv_empty [simp]: "seen_inv Map.empty []"
  by (simp add: seen_inv_def)

lemma seen_inv_lookup:
  "seen_inv seen pre \<Longrightarrow> seen k = None \<longleftrightarrow> k \<notin> set pre"
proof -
  assume inv: "seen_inv seen pre"
  show ?thesis
  proof
    assume n: "seen k = None"
    show "k \<notin> set pre"
    proof
      assume "k \<in> set pre"
      then obtain i where "i < length pre" "pre ! i = k" by (auto simp: in_set_conv_nth)
      with inv have "seen k = Some i" by (simp add: seen_inv_def)
      with n show False by simp
    qed
  next
    assume "k \<notin> set pre"
    with inv show "seen k = None"
      by (cases "seen k") (auto simp: seen_inv_def)
  qed
qed

lemma seen_inv_step:
  assumes inv: "seen_inv seen pre" and k: "k \<noteq> []" "k \<notin> set pre"
  shows "seen_inv (seen(k \<mapsto> length pre)) (pre @ [k])"
proof -
  from inv have d: "distinct pre" "[] \<notin> set pre"
    and m: "\<And>k i. seen k = Some i \<longleftrightarrow> i < length pre \<and> pre ! i = k"
    by (simp_all add: seen_inv_def)
  have "(seen(k \<mapsto> length pre)) k' = Some i \<longleftrightarrow> i < length (pre @ [k]) \<and> (pre @ [k]) ! i = k'"
    for k' i
  proof (cases "k' = k")
    case True
    with k(2) show ?thesis
      by (auto simp: nth_append less_Suc_eq)
  next
    case False
    then show ?thesis
      by (auto simp: m nth_append less_Suc_eq)
  qed
  with d k show ?thesis by (simp add: seen_inv_def)
qed

lemma check_variables_empty_key:
  "is_dict entry \<Longrightarrow> entry_key X entry = [] \<Longrightarrow>
   check_variables X src seen idx (entry # rest) =
     Some (ConversionError (''Variable at index '' @ show_nat idx @ '' missing key in '' @ src))"
  by (simp add: entry_key_def Let_def)

lemma check_variables_seen_key:
  "is_dict entry \<Longrightarrow> entry_key X entry \<noteq> [] \<Longrightarrow> seen (entry_key X entry) = Some prev \<Longrightarrow>
   check_variables X src seen idx (entry # rest) =
     Some (ConversionError
       (''Duplicate variable key '' @ [CHR 0x27] @ entry_key X entry @ [CHR 0x27] @ '' in '' @ src
        @ '' (indexes '' @ show_nat prev @ '' and '' @ show_nat idx @ '')''))"
  by (simp add: entry_key_def Let_def)

lemma check_variables_new_key:
  "is_dict entry \<Longrightarrow> entry_key X entry \<noteq> [] \<Longrightarrow> seen (entry_key X entry) = None \<Longrightarrow>
   check_variables X src seen idx (entry # rest) =
     check_variables X src (seen(entry_key X entry \<mapsto> idx)) (Suc idx) rest"
  by (simp add: entry_key_def Let_def)

lemma check_variables_not_dict:
  "\<not> is_dict entry \<Longrightarrow>
   check_variables X src seen idx (entry # rest) =
     Some (ConversionError (''Invalid variable entry at index '' @ show_nat idx @ '' in '' @ src))"
  by simp

lemma check_variables_passes:
  "seen_inv seen pre \<Longrightarrow> idx = length pre \<Longrightarrow> list_all is_dict es \<Longrightarrow>
   distinct (pre @ map (entry_key X) es) \<Longrightarrow> [] \<notin> set (map (entry_key X) es) \<Longrightarrow>
   check_variables X src seen idx es = None"
proof (induction es arbitrary: seen pre idx)
  case Nil
  show ?case by simp
next
  case (Cons entry rest)
  let ?k = "entry_key X entry"
  from Cons.prems(3) have d: "is_dict entry" "list_all is_dict rest" by simp_all
  from Cons.prems have k: "?k \<noteq> []" "?k \<notin> set pre" by auto
  from seen_inv_lookup [OF Cons.prems(1)] k have s: "seen ?k = None" by simp
  have inv': "seen_inv (seen(?k \<mapsto> idx)) (pre @ [?k])"
    using seen_inv_step [OF Cons.prems(1) k] Cons.prems(2) by simp
  from Cons.prems have p: "Suc idx = length (pre @ [?k])"
    "distinct ((pre @ [?k]) @ map (entry_key X) rest)"
    "[] \<notin> set (map (entry_key X) rest)"
    by simp_all
  note step = check_variables_new_key [where seen = seen and idx = idx and rest = rest and src = src,
      OF d(1) k(1) s]
  from Cons.IH [OF inv' p(1) d(2) p(2,3)] show ?case
    by (rule trans [OF step])
qed

lemma check_variables_missing:
  "seen_inv seen pre \<Longrightarrow> idx = length pre \<Longrightarrow> list_all is_dict es \<Longrightarrow> j < length es \<Longrightarrow>
   distinct (pre @ take j (map (entry_key X) es)) \<Longrightarrow>
   [] \<notin> set (take j (map (entry_key X) es)) \<Longrightarrow>
   entry_key X (es ! j) = [] \<Longrightarrow>
   check_variables X src seen idx es =
     Some (ConversionError
       (''Variable at index '' @ show_nat (idx + j) @ '' missing key in '' @ src))"
proof (induction es arbitrary: seen pre idx j)
  case Nil
  then show ?case by simp
next
  case (Cons entry rest)
  let ?k = "entry_key X entry"
  from Cons.prems(3) have d: "is_dict entry" "list_all is_dict rest" by simp_all
  show ?case
  proof (cases j)
    case 0
    with Cons.prems(7) have "?k = []" by simp
    from check_variables_empty_key [OF d(1) this] 0 show ?thesis by simp
  next
    case (Suc j')
    with Cons.prems have k: "?k \<noteq> []" "?k \<notin> set pre" by auto
    from seen_inv_lookup [OF Cons.prems(1)] k have s: "seen ?k = None" by simp
    have inv': "seen_inv (seen(?k \<mapsto> idx)) (pre @ [?k])"
      using seen_inv_step [OF Cons.prems(1) k] Cons.prems(2) by simp
    from Cons.prems Suc have p: "Suc idx = length (pre @ [?k])" "j' < length rest"
      "distinct ((pre @ [?k]) @ take j' (map (entry_key X) rest))"
      "[] \<notin> set (take j' (map (entry_key X) rest))"
      "entry_key X (rest ! j') = []"
      by simp_all
    note step = check_variables_new_key [where seen = seen and idx = idx and rest = rest and src = src,
        OF d(1) k(1) s]
    have e: "Suc idx + j' = idx + j" by (simp add: Suc)
    from Cons.IH [OF inv' p(1) d(2) p(2-5)] show ?thesis
      unfolding e by (rule trans [OF step])
  qed
qed

lemma check_variables_duplicate:
  "seen_inv seen pre \<Longrightarrow> idx = length pre \<Longrightarrow> list_all is_dict es \<Longrightarrow> j < length es \<Longrightarrow>
   distinct (pre @ take j (map (entry_key X) es)) \<Longrightarrow>
   [] \<notin> set (take j (map (entry_key X) es)) \<Longrightarrow>
   entry_key X (es ! j) \<noteq> [] \<Longrightarrow>
   i < idx + j \<Longrightarrow> (pre @ map (entry_key X) es) ! i = entry_key X (es ! j) \<Longrightarrow>
   check_variables X src seen idx es =
     Some (ConversionError
       (''Duplicate variable key '' @ [CHR 0x27] @ entry_key X (es ! j) @ [CHR 0x27] @ '' in '' @ src
        @ '' (indexes '' @ show_nat i @ '' and '' @ show_nat (idx + j) @ '')''))"
proof (induction es arbitrary: seen pre idx j)
  case Nil
  then show ?case by simp
next
  case (Cons entry rest)
  let ?k = "entry_key X entry"
  from Cons.prems(3) have d: "is_dict entry" "list_all is_dict rest" by simp_all
  show ?case
  proof (cases j)
    case 0
    with Cons.prems have i: "i < length pre" "pre ! i = ?k" and k: "?k \<noteq> []"
      by (simp_all add: nth_append)
    with Cons.prems(1) have "seen ?k = Some i" by (simp add: seen_inv_def)
    from check_variables_seen_key [where seen = seen, OF d(1) k this] 0 show ?thesis by simp
  next
    case (Suc j')
    with Cons.prems have k: "?k \<noteq> []" "?k \<notin> set pre" by auto
    from seen_inv_lookup [OF Cons.prems(1)] k have s: "seen ?k = None" by simp
    have inv': "seen_inv (seen(?k \<mapsto> idx)) (pre @ [?k])"
      using seen_inv_step [OF Cons.prems(1) k] Cons.prems(2) by simp
    from Cons.prems Suc have p: "Suc idx = length (pre @ [?k])" "j' < length rest"
      "distinct ((pre @ [?k]) @ take j' (map (entry_key X) rest))"
      "[] \<notin> set (take j' (map (entry_key X) rest))"
      "entry_key X (rest ! j') \<noteq> []"
      "i < Suc idx + j'"
      "((pre @ [?k]) @ map (entry_key X) rest) ! i = entry_key X (rest ! j')"
      by simp_all
    note step = check_variables_new_key [where seen = seen and idx = idx and rest = rest and src = src,
        OF d(1) k(1) s]
    have e: "Suc idx + j' = idx + j" "rest ! j' = (entry # rest) ! j" by (simp_all add: Suc)
    from Cons.IH [OF inv' p(1) d(2) p(2-7)] show ?thesis
      unfolding e by (rule trans [OF step])
  qed
qed

text \<open>A list with an empty or a repeated element has a first such position.\<close>

lemma first_violation:
  assumes "\<not> (distinct ks \<and> [] \<notin> set ks)"
  shows "\<exists>j<length ks. distinct (take j ks) \<and> [] \<notin> set (take j ks)
      \<and> (ks ! j = [] \<or> (\<exists>i<j. ks ! i = ks ! j))"
proof -
  define P where "P j \<longleftrightarrow> j < length ks \<and> (ks ! j = [] \<or> (\<exists>i<j. ks ! i = ks ! j))" for j
  have "\<exists>j. P j"
  proof (cases "[] \<in> set ks")
    case True
    then obtain j where "j < length ks" "ks ! j = []" by (auto simp: in_set_conv_nth)
    then have "P j" by (simp add: P_def)
    then show ?thesis ..
  next
    case False
    with assms have "\<not> distinct ks" by simp
    then obtain i j where ij: "i < length ks" "j < length ks" "i \<noteq> j" "ks ! i = ks ! j"
      by (auto simp: distinct_conv_nth)
    show ?thesis
    proof (cases "i < j")
      case True
      with ij have "P j" unfolding P_def by blast
      then show ?thesis ..
    next
      case False
      with ij have "j < i" by simp
      with ij have "P i" unfolding P_def by metis
      then show ?thesis ..
    qed
  qed
  then obtain j0 where "P j0" ..
  define m where "m = (LEAST j. P j)"
  have Pm: "P m" unfolding m_def using \<open>P j0\<close> by (rule LeastI)
  have least: "\<not> P j" if "j < m" for j
    using that unfolding m_def by (rule not_less_Least)
  from Pm have m: "m < length ks" and v: "ks ! m = [] \<or> (\<exists>i<m. ks ! i = ks ! m)"
    by (simp_all add: P_def)
  have ne: "ks ! j \<noteq> []" and nd: "\<forall>i<j. ks ! i \<noteq> ks ! j" if "j < m" for j
  proof -
    from that m have "j < length ks" by simp
    with least [OF that] show "ks ! j \<noteq> []" "\<forall>i<j. ks ! i \<noteq> ks ! j"
      by (auto simp: P_def)
  qed
  have "distinct (take m ks)"
  proof -
    have "take m ks ! i \<noteq> take m ks ! j" if "i < j" "j < m" for i j
      using that nd [of j] by simp
    then have "take m ks ! i \<noteq> take m ks ! j" if "i \<noteq> j" "i < m" "j < m" for i j
      using that by (cases "i < j") (auto simp: not_less le_less dest: not_sym)
    with m show ?thesis by (simp add: distinct_conv_nth)
  qed
  moreover have "[] \<notin> set (take m ks)"
  proof
    assume "[] \<in> set (take m ks)"
    then obtain j where "j < length (take m ks)" "take m ks ! j = []"
      by (auto simp: in_set_conv_nth)
    with m ne [of j] show False by simp
  qed
  ultimately show ?thesis using m v by blast
qed

lemma variables_entry_ok_dict: "variables_entry_ok entry \<Longrightarrow> is_dict entry"
  by (cases entry) (simp_all add: variables_entry_ok_def)

lemma conforms_variables_dicts:
  "conforms_variables d \<Longrightarrow> \<exists>es. d = JArr es \<and> list_all is_dict es"
  by (cases d) (auto simp: conforms_variables_def list_all_iff intro: variables_entry_ok_dict)

lemma assert_unique_array:
  "data task = JArr es \<Longrightarrow>
   assert_unique_variable_keys X task = check_variables X (source task) Map.empty 0 es"
  by (cases es) (simp_all add: assert_unique_variable_keys_def py_or_def)


lemma entry_key_string:
  "map_of kvs ''key'' = Some (JStr k) \<Longrightarrow> entry_key X (JObj kvs) = strip k"
  by (simp add: entry_key_def dict_get_def py_str_def)

text \<open>
  Claim C4. The key of an entry is its \<open>key\<close> string, trimmed, whatever its \<open>value\<close> is.
  For a variables document that conforms to the schema: when two entries have the same
  trimmed key, or some entry has an empty trimmed key, the check fails with a
  \<open>ConversionError\<close>. The check goes through the entries in order and stops at the first
  one that is in fault (the entries before it have non-empty, pairwise different keys):
  when its key is empty the message gives its index; when its key is that of an earlier
  entry the message names the key and the indices of both entries. A document whose keys
  are non-empty and pairwise different passes.
\<close>

theorem duplicate_variable_keys_fail:
  "(\<forall>kvs k. map_of kvs ''key'' = Some (JStr k) \<longrightarrow> entry_key X (JObj kvs) = strip k)
   \<and> (conforms_variables (data task) \<and> data task = JArr es \<longrightarrow>
        ((\<not> distinct (map (entry_key X) es) \<or> [] \<in> set (map (entry_key X) es)) \<longrightarrow>
           (\<exists>m. assert_unique_variable_keys X task = Some (ConversionError m)))
      \<and> (\<forall>j<length es.
            distinct (take j (map (entry_key X) es)) \<and> [] \<notin> set (take j (map (entry_key X) es)) \<longrightarrow>
              (entry_key X (es ! j) = [] \<longrightarrow>
                 assert_unique_variable_keys X task =
                   Some (ConversionError
                     (''Variable at index '' @ show_nat j @ '' missing key in '' @ source task)))
            \<and> (\<forall>i<j. entry_key X (es ! j) \<noteq> [] \<and> entry_key X (es ! i) = entry_key X (es ! j) \<longrightarrow>
                 assert_unique_variable_keys X task =
                   Some (ConversionError
                     (''Duplicate variable key '' @ [CHR 0x27] @ entry_key X (es ! j) @ [CHR 0x27]
                      @ '' in '' @ source task
                      @ '' (indexes '' @ show_nat i @ '' and '' @ show_nat j @ '')''))))
      \<and> (distinct (map (entry_key X) es) \<and> [] \<notin> set (map (entry_key X) es) \<longrightarrow>
           assert_unique_variable_keys X task = None))"
proof (intro conjI allI impI)
  fix kvs k
  assume "map_of kvs ''key'' = Some (JStr k)"
  then show "entry_key X (JObj kvs) = strip k" by (rule entry_key_string)
next
  assume a: "conforms_variables (data task) \<and> data task = JArr es"
  then have dt: "data task = JArr es" by simp
  from a conforms_variables_dicts [of "data task"] have d: "list_all is_dict es" by auto
  note u = assert_unique_array [OF dt, of X]
  let ?ks = "map (entry_key X) es"
  have miss: "assert_unique_variable_keys X task =
        Some (ConversionError (''Variable at index '' @ show_nat j @ '' missing key in '' @ source task))"
    if "j < length es" "distinct (take j ?ks)" "[] \<notin> set (take j ?ks)" "entry_key X (es ! j) = []"
    for j
    using check_variables_missing [of Map.empty "[]" 0 es j X "source task"] that d u by simp
  have dup: "assert_unique_variable_keys X task =
        Some (ConversionError
          (''Duplicate variable key '' @ [CHR 0x27] @ entry_key X (es ! j) @ [CHR 0x27]
           @ '' in '' @ source task
           @ '' (indexes '' @ show_nat i @ '' and '' @ show_nat j @ '')''))"
    if "j < length es" "distinct (take j ?ks)" "[] \<notin> set (take j ?ks)" "entry_key X (es ! j) \<noteq> []"
      "i < j" "entry_key X (es ! i) = entry_key X (es ! j)"
    for i j
    using check_variables_duplicate [of Map.empty "[]" 0 es j X i "source task"] that d u by simp
  {
    assume "\<not> distinct ?ks \<or> [] \<in> set ?ks"
    then have "\<not> (distinct ?ks \<and> [] \<notin> set ?ks)" by blast
    from first_violation [OF this] obtain j where j': "j < length ?ks"
      and j2: "distinct (take j ?ks)" "[] \<notin> set (take j ?ks)"
      and v: "?ks ! j = [] \<or> (\<exists>i<j. ?ks ! i = ?ks ! j)"
      by blast
    from j' have j1: "j < length es" by simp
    note j = j1 j2
    show "\<exists>m. assert_unique_variable_keys X task = Some (ConversionError m)"
    proof (cases "entry_key X (es ! j) = []")
      case True
      from miss [OF j True] show ?thesis by blast
    next
      case False
      with v j(1) obtain i where i: "i < j" "?ks ! i = ?ks ! j" by auto
      with j(1) have "i < length es" by simp
      with i j(1) have "entry_key X (es ! i) = entry_key X (es ! j)" by simp
      from dup [OF j False i(1) this] show ?thesis by blast
    qed
  next
    fix j
    assume "j < length es" and "distinct (take j ?ks) \<and> [] \<notin> set (take j ?ks)"
      and "entry_key X (es ! j) = []"
    then show "assert_unique_variable_keys X task =
        Some (ConversionError (''Variable at index '' @ show_nat j @ '' missing key in '' @ source task))"
      by (intro miss) simp_all
  next
    fix j i
    assume "j < length es" and "distinct (take j ?ks) \<and> [] \<notin> set (take j ?ks)"
      and "i < j" and "entry_key X (es ! j) \<noteq> [] \<and> entry_key X (es ! i) = entry_key X (es ! j)"
    then show "assert_unique_variable_keys X task =
        Some (ConversionError
          (''Duplicate variable key '' @ [CHR 0x27] @ entry_key X (es ! j) @ [CHR 0x27]
           @ '' in '' @ source task
           @ '' (indexes '' @ show_nat i @ '' and '' @ show_nat j @ '')''))"
      by (intro dup) simp_all
  next
    assume "distinct ?ks \<and> [] \<notin> set ?ks"
    with check_variables_passes [of Map.empty "[]" 0 es X "source task"] d u
    show "assert_unique_variable_keys X task = None" by simp
  }
qed

theorem duplicate_variable_keys_fail_witness:
  "assert_unique_variable_keys toy_ext
      (vars_task (JArr [var_entry ''env'' ''prod'', var_entry '' env '' ''dev'']))
     = Some (ConversionError
         (''Duplicate variable key '' @ [CHR 0x27] @ ''env'' @ [CHR 0x27]
          @ '' in /g/variables.json (indexes 0 and 1)''))
   \<and> assert_unique_variable_keys toy_ext
      (vars_task (JArr [var_entry ''a'' ''1'', var_entry ''  '' ''2'']))
     = Some (ConversionError ''Variable at index 1 missing key in /g/variables.json'')
   \<and> assert_unique_variable_keys toy_ext
      (vars_task (JArr [var_entry ''a'' ''1'', var_entry ''b'' ''1'']))
     = None"
proof -
  let ?dup = "[var_entry ''env'' ''prod'', var_entry '' env '' ''dev'']"
  let ?empty = "[var_entry ''a'' ''1'', var_entry ''  '' ''2'']"
  let ?good = "[var_entry ''a'' ''1'', var_entry ''b'' ''1'']"
  have h: "conforms_variables (data (vars_task (JArr ?dup))) \<and> data (vars_task (JArr ?dup)) = JArr ?dup"
    "conforms_variables (data (vars_task (JArr ?empty))) \<and> data (vars_task (JArr ?empty)) = JArr ?empty"
    "conforms_variables (data (vars_task (JArr ?good))) \<and> data (vars_task (JArr ?good)) = JArr ?good"
    by code_simp+
  note T = duplicate_variable_keys_fail [THEN conjunct2, rule_format]
  have p1: "(1::nat) < length ?dup"
    "distinct (take 1 (map (entry_key toy_ext) ?dup)) \<and> [] \<notin> set (take 1 (map (entry_key toy_ext) ?dup))"
    "(0::nat) < 1"
    "entry_key toy_ext (?dup ! 1) \<noteq> [] \<and> entry_key toy_ext (?dup ! 0) = entry_key toy_ext (?dup ! 1)"
    by code_simp+
  have e1: "''Duplicate variable key '' @ [CHR 0x27] @ entry_key toy_ext (?dup ! 1) @ [CHR 0x27]
             @ '' in '' @ source (vars_task (JArr ?dup))
             @ '' (indexes '' @ show_nat 0 @ '' and '' @ show_nat 1 @ '')''
           = ''Duplicate variable key '' @ [CHR 0x27] @ ''env'' @ [CHR 0x27]
             @ '' in /g/variables.json (indexes 0 and 1)''"
    by code_simp
  from T [of "vars_task (JArr ?dup)" ?dup toy_ext, OF h(1), THEN conjunct2, THEN conjunct1,
      rule_format, OF p1(1) p1(2), THEN conjunct2, rule_format, OF p1(3) p1(4)]
  have c1: "assert_unique_variable_keys toy_ext (vars_task (JArr ?dup))
     = Some (ConversionError
         (''Duplicate variable key '' @ [CHR 0x27] @ ''env'' @ [CHR 0x27]
          @ '' in /g/variables.json (indexes 0 and 1)''))"
    unfolding e1 .
  have p2: "(1::nat) < length ?empty"
    "distinct (take 1 (map (entry_key toy_ext) ?empty)) \<and> [] \<notin> set (take 1 (map (entry_key toy_ext) ?empty))"
    "entry_key toy_ext (?empty ! 1) = []"
    by code_simp+
  have e2: "''Variable at index '' @ show_nat 1 @ '' missing key in '' @ source (vars_task (JArr ?empty))
           = ''Variable at index 1 missing key in /g/variables.json''"
    by code_simp
  from T [of "vars_task (JArr ?empty)" ?empty toy_ext, OF h(2), THEN conjunct2, THEN conjunct1,
      rule_format, OF p2(1) p2(2), THEN conjunct1, rule_format, OF p2(3)]
  have c2: "assert_unique_variable_keys toy_ext (vars_task (JArr ?empty))
     = Some (ConversionError ''Variable at index 1 missing key in /g/variables.json'')"
    unfolding e2 .
  have p3: "distinct (map (entry_key toy_ext) ?good) \<and> [] \<notin> set (map (entry_key toy_ext) ?good)"
    by code_simp
  from T [of "vars_task (JArr ?good)" ?good toy_ext, OF h(3), THEN conjunct2, THEN conjunct2,
      rule_format, OF p3]
  have c3: "assert_unique_variable_keys toy_ext (vars_task (JArr ?good)) = None" .
  from c1 c2 c3 show ?thesis by blast
qed

subsection \<open>Cross-validation\<close>

lemma edge_missing_endpoints:
  "edge_missing X ids edge_task =
     filter (\<lambda>n. n \<noteq> [] \<and> n \<notin> ids)
       [edge_endpoint X ''source'' edge_task, edge_endpoint X ''target'' edge_task]"
  by (simp add: edge_missing_def edge_endpoint_def Let_def)

lemma edge_missing_not_empty: "[] \<notin> set (edge_missing X ids edge_task)"
  by (auto simp: edge_missing_endpoints)

lemma check_edges_passes:
  "\<forall>e\<in>set edges. edge_missing X ids e = [] \<Longrightarrow> check_edges X ids edges = None"
  by (induction edges) (simp_all add: Let_def)

lemma check_edges_first:
  "\<forall>e\<in>set before. edge_missing X ids e = [] \<Longrightarrow> edge_missing X ids edge_task \<noteq> [] \<Longrightarrow>
   check_edges X ids (before @ edge_task # after) =
     Some (ConversionError
       (''Edge '' @ source edge_task @ '' references missing nodes: ''
        @ join '', '' (edge_missing X ids edge_task)))"
  by (induction before) (simp_all add: Let_def)

lemma check_edges_fails:
  "\<exists>e\<in>set edges. edge_missing X ids e \<noteq> [] \<Longrightarrow>
   \<exists>m. check_edges X ids edges = Some (ConversionError m)"
  by (induction edges) (auto simp: Let_def)

lemma cross_validate_unfold:
  "cross_validate X tasks =
     (if card (collected_ids X tasks) \<noteq> length (node_tasks tasks) then
        Some (ConversionError ''Duplicate node IDs detected during validation'')
      else check_edges X (collected_ids X tasks) (edge_tasks tasks))"
  by (simp add: cross_validate_def collected_ids_def node_tasks_def edge_tasks_def Let_def)

text \<open>
  Claim C5. Cross-validation runs on the loaded tasks of a root-mode run. The missing
  identifiers of an edge are its trimmed \<open>source\<close> and \<open>target\<close>, in that order, that are
  non-empty and not in the set of collected node identifiers; an empty one is never among
  them. When some edge has a missing identifier, cross-validation fails with a
  \<open>ConversionError\<close>. It checks the node identifiers first and then the edges in order,
  and stops at the first edge in fault: when the node identifiers are pairwise different,
  the message names the source file of that edge and its missing identifiers, joined by
  a comma and a space; \<open>process\<close> prints it as its \<open>[error]\<close> line and returns 1. When no
  edge has a missing identifier, cross-validation passes.
\<close>

theorem dangling_edges_fail:
  "(\<forall>edge_task\<in>set tasks.
      kind edge_task = GRAPH_EDGE \<and> edge_missing X (collected_ids X tasks) edge_task \<noteq> [] \<longrightarrow>
      (\<exists>m. cross_validate X tasks = Some (ConversionError m)))
   \<and> (\<forall>before edge_task after.
         card (collected_ids X tasks) = length (node_tasks tasks)
         \<and> edge_tasks tasks = before @ edge_task # after
         \<and> (\<forall>e\<in>set before. edge_missing X (collected_ids X tasks) e = [])
         \<and> edge_missing X (collected_ids X tasks) edge_task \<noteq> [] \<longrightarrow>
         cross_validate X tasks =
           Some (ConversionError
             (''Edge '' @ source edge_task @ '' references missing nodes: ''
              @ join '', '' (edge_missing X (collected_ids X tasks) edge_task))))
   \<and> (\<forall>ids edge_task.
         edge_missing X ids edge_task =
           filter (\<lambda>n. n \<noteq> [] \<and> n \<notin> ids)
             [edge_endpoint X ''source'' edge_task, edge_endpoint X ''target'' edge_task]
         \<and> [] \<notin> set (edge_missing X ids edge_task))
   \<and> (card (collected_ids X tasks) = length (node_tasks tasks)
       \<and> (\<forall>e\<in>set (edge_tasks tasks). edge_missing X (collected_ids X tasks) e = []) \<longrightarrow>
       cross_validate X tasks = None)
   \<and> (\<forall>st collected m.
         collect_tasks os args fs init_converter = (None, st, collected) \<and> collected \<noteq> []
         \<and> load_tasks X os fs collected = Inr tasks \<and> root_given args
         \<and> cross_validate X tasks = Some (ConversionError m) \<longrightarrow>
         process X os args fs = (Inr 1, error st m, fs))"
proof (intro conjI ballI allI impI)
  fix edge_task
  assume e: "edge_task \<in> set tasks"
    and k: "kind edge_task = GRAPH_EDGE \<and> edge_missing X (collected_ids X tasks) edge_task \<noteq> []"
  then have "\<exists>e\<in>set (edge_tasks tasks). edge_missing X (collected_ids X tasks) e \<noteq> []"
    by (auto simp: edge_tasks_def)
  from check_edges_fails [OF this] show "\<exists>m. cross_validate X tasks = Some (ConversionError m)"
    by (auto simp: cross_validate_unfold)
next
  fix before edge_task after
  assume a: "card (collected_ids X tasks) = length (node_tasks tasks)
         \<and> edge_tasks tasks = before @ edge_task # after
         \<and> (\<forall>e\<in>set before. edge_missing X (collected_ids X tasks) e = [])
         \<and> edge_missing X (collected_ids X tasks) edge_task \<noteq> []"
  then have "check_edges X (collected_ids X tasks) (before @ edge_task # after) =
     Some (ConversionError
       (''Edge '' @ source edge_task @ '' references missing nodes: ''
        @ join '', '' (edge_missing X (collected_ids X tasks) edge_task)))"
    by (intro check_edges_first) auto
  with a show "cross_validate X tasks =
           Some (ConversionError
             (''Edge '' @ source edge_task @ '' references missing nodes: ''
              @ join '', '' (edge_missing X (collected_ids X tasks) edge_task)))"
    by (simp add: cross_validate_unfold)
next
  fix ids edge_task
  show "edge_missing X ids edge_task =
           filter (\<lambda>n. n \<noteq> [] \<and> n \<notin> ids)
             [edge_endpoint X ''source'' edge_task, edge_endpoint X ''target'' edge_task]"
    by (rule edge_missing_endpoints)
  show "[] \<notin> set (edge_missing X ids edge_task)"
    by (rule edge_missing_not_empty)
next
  assume a: "card (collected_ids X tasks) = length (node_tasks tasks)
       \<and> (\<forall>e\<in>set (edge_tasks tasks). edge_missing X (collected_ids X tasks) e = [])"
  then have "check_edges X (collected_ids X tasks) (edge_tasks tasks) = None"
    by (intro check_edges_passes) auto
  with a show "cross_validate X tasks = None"
    by (simp add: cross_validate_unfold)
next
  fix st collected m
  assume a: "collect_tasks os args fs init_converter = (None, st, collected) \<and> collected \<noteq> []
         \<and> load_tasks X os fs collected = Inr tasks \<and> root_given args
         \<and> cross_validate X tasks = Some (ConversionError m)"
  then have "process_try X os args fs = (Inl (ConversionError m), st, fs)"
    by (intro process_try_cross_raises) auto
  from process_raises [OF this] show "process X os args fs = (Inr 1, error st m, fs)"
    by simp
qed

theorem dangling_edges_fail_witness:
  "cross_validate toy_ext
      [example_node ''a'' ''a'', example_edge ''e0'' ''a'' ''  '', example_edge ''e1'' ''a'' '' a '',
       example_edge ''e2'' ''x'' ''y'', example_edge ''e3'' ''a'' ''zzz'']
     = Some (ConversionError ''Edge /g/edges/e2.json references missing nodes: x, y'')
   \<and> edge_missing toy_ext {''a''} (example_edge ''e0'' ''a'' ''  '') = []
   \<and> cross_validate toy_ext [example_node ''a'' ''a'', example_edge ''e1'' ''a'' '' a ''] = None
   \<and> process graph_ext mem_os root_args tree_dangling
     = (Inr 1,
        \<lparr>failures = [], converted = 0, skipped = 0,
         stdout = [''[error] Edge /g/edges/e.json references missing nodes: b'' @ NL]\<rparr>,
        tree_dangling)"
proof -
  let ?tasks = "[example_node ''a'' ''a'', example_edge ''e0'' ''a'' ''  '',
                 example_edge ''e1'' ''a'' '' a '', example_edge ''e2'' ''x'' ''y'',
                 example_edge ''e3'' ''a'' ''zzz'']"
  have h1: "card (collected_ids toy_ext ?tasks) = length (node_tasks ?tasks)
         \<and> edge_tasks ?tasks
             = [example_edge ''e0'' ''a'' ''  '', example_edge ''e1'' ''a'' '' a '']
               @ example_edge ''e2'' ''x'' ''y'' # [example_edge ''e3'' ''a'' ''zzz'']
         \<and> (\<forall>e\<in>set [example_edge ''e0'' ''a'' ''  '', example_edge ''e1'' ''a'' '' a ''].
               edge_missing toy_ext (collected_ids toy_ext ?tasks) e = [])
         \<and> edge_missing toy_ext (collected_ids toy_ext ?tasks) (example_edge ''e2'' ''x'' ''y'') \<noteq> []"
    by code_simp
  have e1: "''Edge '' @ source (example_edge ''e2'' ''x'' ''y'') @ '' references missing nodes: ''
              @ join '', '' (edge_missing toy_ext (collected_ids toy_ext ?tasks)
                               (example_edge ''e2'' ''x'' ''y''))
            = ''Edge /g/edges/e2.json references missing nodes: x, y''"
    by code_simp
  note T = dangling_edges_fail [of _ toy_ext mem_os root_args tree_fresh]
  from T [of ?tasks, THEN conjunct2, THEN conjunct1, rule_format, OF h1]
  have c1: "cross_validate toy_ext ?tasks
     = Some (ConversionError ''Edge /g/edges/e2.json references missing nodes: x, y'')"
    unfolding e1 .
  have e2: "filter (\<lambda>n. n \<noteq> [] \<and> n \<notin> {''a''})
             [edge_endpoint toy_ext ''source'' (example_edge ''e0'' ''a'' ''  ''),
              edge_endpoint toy_ext ''target'' (example_edge ''e0'' ''a'' ''  '')] = []"
    by code_simp
  from T [of ?tasks, THEN conjunct2, THEN conjunct2, THEN conjunct1, rule_format,
      of "{''a''}" "example_edge ''e0'' ''a'' ''  ''"] e2
  have c2: "edge_missing toy_ext {''a''} (example_edge ''e0'' ''a'' ''  '') = []"
    by simp
  let ?ok = "[example_node ''a'' ''a'', example_edge ''e1'' ''a'' '' a '']"
  have h3: "card (collected_ids toy_ext ?ok) = length (node_tasks ?ok)
       \<and> (\<forall>e\<in>set (edge_tasks ?ok). edge_missing toy_ext (collected_ids toy_ext ?ok) e = [])"
    by code_simp
  from T [of ?ok, THEN conjunct2, THEN conjunct2, THEN conjunct2, THEN conjunct1, rule_format, OF h3]
  have c3: "cross_validate toy_ext ?ok = None" .
  let ?n = "new_task root_args (Some ''/g'') ''/g/nodes/a.json'' GRAPH_NODE"
  let ?e = "new_task root_args (Some ''/g'') ''/g/edges/e.json'' GRAPH_EDGE"
  let ?loaded = "[?n\<lparr>data := node_a, yaml_text := Some (''[]'' @ NL), target := Some ''/g/nodes/a.yaml''\<rparr>,
         ?e\<lparr>data := edge_ab, yaml_text := Some (''[]'' @ NL), target := Some ''/g/edges/e.yaml''\<rparr>]"
  have h4: "collect_tasks mem_os root_args tree_dangling init_converter = (None, init_converter, [?n, ?e])
         \<and> [?n, ?e] \<noteq> []
         \<and> load_tasks graph_ext mem_os tree_dangling [?n, ?e] = Inr ?loaded \<and> root_given root_args
         \<and> cross_validate graph_ext ?loaded
             = Some (ConversionError ''Edge /g/edges/e.json references missing nodes: b'')"
    by code_simp
  have e4: "error init_converter ''Edge /g/edges/e.json references missing nodes: b''
            = \<lparr>failures = [], converted = 0, skipped = 0,
               stdout = [''[error] Edge /g/edges/e.json references missing nodes: b'' @ NL]\<rparr>"
    by code_simp
  from dangling_edges_fail [of ?loaded graph_ext mem_os root_args tree_dangling,
      THEN conjunct2, THEN conjunct2, THEN conjunct2, THEN conjunct2, rule_format, OF h4]
  have c4: "process graph_ext mem_os root_args tree_dangling
     = (Inr 1,
        \<lparr>failures = [], converted = 0, skipped = 0,
         stdout = [''[error] Edge /g/edges/e.json references missing nodes: b'' @ NL]\<rparr>,
        tree_dangling)"
    unfolding e4 .
  from c1 c2 c3 c4 show ?thesis by blast
qed

subsection \<open>Sorting the violations\<close>

lemma elem_lt_irrefl [simp]: "elem_lt x x = Some False"
  by (cases x) simp_all

lemma elem_lt_trans:
  "elem_lt x y = Some True \<Longrightarrow> elem_lt y z = Some True \<Longrightarrow> elem_lt x z = Some True"
  by (cases x; cases y; cases z) auto

lemma elem_lt_neq: "elem_lt x y = Some True \<Longrightarrow> x \<noteq> y"
  by auto

lemma elem_lt_asym: "elem_lt x y = Some True \<Longrightarrow> elem_lt y x = Some False"
  by (cases x; cases y) auto

lemma deque_lt_irrefl [simp]: "deque_lt p p = Some False"
  by (induction p) simp_all

lemma deque_lt_asym: "deque_lt p q = Some True \<Longrightarrow> deque_lt q p = Some False"
proof (induction p q rule: deque_lt.induct)
  case (4 x xs y ys)
  then show ?case by (auto simp: elem_lt_asym split: if_splits)
qed simp_all

lemma deque_lt_trans:
  "deque_lt p q = Some True \<Longrightarrow> deque_lt q r = Some True \<Longrightarrow> deque_lt p r = Some True"
proof (induction p q arbitrary: r rule: deque_lt.induct)
  case 1
  then show ?case by simp
next
  case (2 y ys)
  then show ?case by (cases r) simp_all
next
  case (3 x xs)
  then show ?case by simp
next
  case (4 x xs y ys)
  from "4.prems"(2) obtain z zs where r: "r = z # zs" by (cases r) auto
  show ?case
  proof (cases "x = y")
    case True
    show ?thesis
    proof (cases "y = z")
      case yz: True
      with True "4.prems" r "4.IH" [of zs] show ?thesis by simp
    next
      case False
      with True "4.prems" r show ?thesis by simp
    qed
  next
    case False
    with "4.prems" have xy: "elem_lt x y = Some True" by simp
    show ?thesis
    proof (cases "y = z")
      case True
      with False xy r show ?thesis by simp
    next
      case yz: False
      with "4.prems" r have "elem_lt y z = Some True" by simp
      from elem_lt_trans [OF xy this] have xz: "elem_lt x z = Some True" .
      with elem_lt_neq [OF xz] r show ?thesis by simp
    qed
  qed
qed

text \<open>Inserting a violation whose path can be compared with the paths of a sorted list.\<close>

lemma insort_path_sorted:
  assumes "\<forall>f\<in>set fs. deque_lt (path e) (path f) \<noteq> None \<and> deque_lt (path f) (path e) \<noteq> None"
    and "path_sorted fs"
  shows "\<exists>r. insort_path e fs = Inr r \<and> mset r = add_mset e (mset fs) \<and> path_sorted r"
  using assms
proof (induction fs)
  case Nil
  show ?case by (simp add: path_sorted_def)
next
  case (Cons f fs)
  from Cons.prems have c: "deque_lt (path e) (path f) \<noteq> None" "deque_lt (path f) (path e) \<noteq> None"
    and cs: "\<forall>g\<in>set fs. deque_lt (path e) (path g) \<noteq> None \<and> deque_lt (path g) (path e) \<noteq> None"
    and sf: "\<forall>g\<in>set fs. deque_lt (path g) (path f) = Some False" and ss: "path_sorted fs"
    by (simp_all add: path_sorted_def)
  show ?case
  proof (cases "deque_lt (path e) (path f) = Some True")
    case True
    have "deque_lt (path g) (path e) = Some False" if "g \<in> set fs" for g
    proof (rule ccontr)
      assume "deque_lt (path g) (path e) \<noteq> Some False"
      with cs that have "deque_lt (path g) (path e) = Some True" by (cases "deque_lt (path g) (path e)") auto
      from deque_lt_trans [OF this True] sf that show False by simp
    qed
    with True deque_lt_asym [OF True] sf ss show ?thesis
      by (simp add: path_sorted_def)
  next
    case False
    with c have F: "deque_lt (path e) (path f) = Some False" by (cases "deque_lt (path e) (path f)") auto
    from Cons.IH [OF cs ss] obtain r where r: "insort_path e fs = Inr r"
      "mset r = add_mset e (mset fs)" "path_sorted r" by blast
    from r(2) have "set r = insert e (set fs)" by (metis set_mset_add_mset_insert set_mset_mset)
    with F sf r show ?thesis
      by (simp add: path_sorted_def)
  qed
qed

lemma sorted_into_sorted:
  assumes "comparable_paths (acc @ es)" and "path_sorted acc"
  shows "\<exists>r. sorted_into acc es = Inr r \<and> mset r = mset acc + mset es \<and> path_sorted r"
  using assms
proof (induction es arbitrary: acc)
  case Nil
  then show ?case by simp
next
  case (Cons e es)
  from Cons.prems(1) have "\<forall>f\<in>set acc. deque_lt (path e) (path f) \<noteq> None \<and> deque_lt (path f) (path e) \<noteq> None"
    by (simp add: comparable_paths_def)
  from insort_path_sorted [OF this Cons.prems(2)] obtain r where r: "insort_path e acc = Inr r"
    "mset r = add_mset e (mset acc)" "path_sorted r" by blast
  from r(2) have "set r = insert e (set acc)" by (metis set_mset_add_mset_insert set_mset_mset)
  with Cons.prems(1) have "comparable_paths (r @ es)"
    by (simp add: comparable_paths_def)
  from Cons.IH [OF this r(3)] r show ?case by auto
qed

lemma sorted_by_path_sorted:
  "comparable_paths errors \<Longrightarrow>
   \<exists>r. sorted_by_path errors = Inr r \<and> mset r = mset errors \<and> path_sorted r"
  using sorted_into_sorted [of "[]" errors] by (simp add: sorted_by_path_def path_sorted_def)


lemma load_tasks_first_failure:
  "\<forall>t\<in>set before. \<exists>t'. load_task X os fs t = Inr t' \<Longrightarrow> load_task X os fs task = Inl e \<Longrightarrow>
   load_tasks X os fs (before @ task # after) = Inl e"
  by (induction before) auto

lemma format_validation_error_cases:
  "format_validation_error e =
     (if join ''.'' (map str_elem (absolute_path e)) = [] then message e
      else join ''.'' (map str_elem (absolute_path e)) @ '': '' @ message e)"
  by (simp add: format_validation_error_def Let_def)

text \<open>
  Claim C7. A document that violates the schema of its kind aborts the run with one
  fatal error for all its violations. Suppose the source of a task is read and parsed,
  the validator reports at least one violation for the document, and the paths of the
  violations can be compared with each other. Then loading the task raises a conversion
  error whose message is \<open>Validation failed for\<close>, the source, and the violations joined
  by \<open>; \<close>: every violation the validator reported is listed, exactly as often as it
  was reported, and they are listed in the order of their paths. A violation is shown
  as its message, prefixed by its field path joined with dots and \<open>: \<close>; without prefix
  when that is empty, in particular when the path is empty. When the task is the first
  one of the run that fails to load, the run prints the message as an error, returns 1
  and leaves the file system as it was.
\<close>

theorem schema_violations_are_listed:
  "(os_read_text os fs (source task) = Inr content \<and> json_load X content = Inr d
    \<and> iter_errors X (kind task) (data (parsed_task X task d)) \<noteq> []
    \<and> comparable_paths (iter_errors X (kind task) (data (parsed_task X task d))) \<longrightarrow>
      (\<exists>listed.
         mset listed = mset (iter_errors X (kind task) (data (parsed_task X task d)))
         \<and> path_sorted listed
         \<and> load_task X os fs task =
             Inl (ConversionError
               (''Validation failed for '' @ source task @ '': ''
                @ join ''; '' (map format_validation_error listed)))))
   \<and> (\<forall>e. format_validation_error e =
         (if join ''.'' (map str_elem (absolute_path e)) = [] then message e
          else join ''.'' (map str_elem (absolute_path e)) @ '': '' @ message e))
   \<and> (\<forall>e. absolute_path e = [] \<longrightarrow> format_validation_error e = message e)
   \<and> (\<forall>st before after m.
         collect_tasks os args fs init_converter = (None, st, before @ task # after)
         \<and> (\<forall>t\<in>set before. \<exists>t'. load_task X os fs t = Inr t')
         \<and> load_task X os fs task = Inl (ConversionError m) \<longrightarrow>
         process X os args fs = (Inr 1, error st m, fs))"
proof (intro conjI allI impI)
  assume a: "os_read_text os fs (source task) = Inr content \<and> json_load X content = Inr d
    \<and> iter_errors X (kind task) (data (parsed_task X task d)) \<noteq> []
    \<and> comparable_paths (iter_errors X (kind task) (data (parsed_task X task d)))"
  let ?errors = "iter_errors X (kind task) (data (parsed_task X task d))"
  from a sorted_by_path_sorted [of ?errors] obtain listed where
    s: "sorted_by_path ?errors = Inr listed" and m: "mset listed = mset ?errors"
    and p: "path_sorted listed"
    by blast
  from m a have "listed \<noteq> []" by auto
  with a s have "load_task X os fs task =
             Inl (ConversionError
               (''Validation failed for '' @ source task @ '': ''
                @ join ''; '' (map format_validation_error listed)))"
    by (intro load_task_validation_error) auto
  with m p show "\<exists>listed.
         mset listed = mset ?errors \<and> path_sorted listed
         \<and> load_task X os fs task =
             Inl (ConversionError
               (''Validation failed for '' @ source task @ '': ''
                @ join ''; '' (map format_validation_error listed)))"
    by blast
next
  fix e :: ValidationError
  show "format_validation_error e =
         (if join ''.'' (map str_elem (absolute_path e)) = [] then message e
          else join ''.'' (map str_elem (absolute_path e)) @ '': '' @ message e)"
    by (rule format_validation_error_cases)
next
  fix e :: ValidationError
  assume "absolute_path e = []"
  then show "format_validation_error e = message e"
    by (simp add: format_validation_error_cases)
next
  fix st before after m
  assume a: "collect_tasks os args fs init_converter = (None, st, before @ task # after)
         \<and> (\<forall>t\<in>set before. \<exists>t'. load_task X os fs t = Inr t')
         \<and> load_task X os fs task = Inl (ConversionError m)"
  then have "load_tasks X os fs (before @ task # after) = Inl (ConversionError m)"
    by (intro load_tasks_first_failure) auto
  with a have "process_try X os args fs = (Inl (ConversionError m), st, fs)"
    by (intro process_try_load_raises) auto
  from process_raises [OF this] show "process X os args fs = (Inr 1, error st m, fs)"
    by simp
qed

theorem schema_violations_are_listed_witness:
  "(\<exists>listed.
      mset listed = mset bad_node_errors \<and> path_sorted listed
      \<and> load_task validating_ext mem_os tree_bad_node
            (new_task root_args (Some ''/g'') ''/g/nodes/n1.json'' GRAPH_NODE)
          = Inl (ConversionError
              (''Validation failed for /g/nodes/n1.json: ''
               @ join ''; '' (map format_validation_error listed))))
   \<and> load_task validating_ext mem_os tree_bad_node
         (new_task root_args (Some ''/g'') ''/g/nodes/n1.json'' GRAPH_NODE)
       = Inl (ConversionError
           (''Validation failed for /g/nodes/n1.json: ''
            @ [CHR 0x27] @ ''id'' @ [CHR 0x27] @ '' is a required property; ''
            @ ''position.x: '' @ [CHR 0x27] @ ''a'' @ [CHR 0x27] @ '' is not of type ''
            @ [CHR 0x27] @ ''number'' @ [CHR 0x27] @ ''; ''
            @ ''template: 7 is not of type '' @ [CHR 0x27] @ ''string'' @ [CHR 0x27]))
   \<and> process validating_ext mem_os root_args tree_bad_node
       = (Inr 1,
          \<lparr>failures = [], converted = 0, skipped = 0,
           stdout = [''[error] Validation failed for /g/nodes/n1.json: ''
            @ [CHR 0x27] @ ''id'' @ [CHR 0x27] @ '' is a required property; ''
            @ ''position.x: '' @ [CHR 0x27] @ ''a'' @ [CHR 0x27] @ '' is not of type ''
            @ [CHR 0x27] @ ''number'' @ [CHR 0x27] @ ''; ''
            @ ''template: 7 is not of type '' @ [CHR 0x27] @ ''string'' @ [CHR 0x27] @ NL]\<rparr>,
          tree_bad_node)"
proof -
  let ?task = "new_task root_args (Some ''/g'') ''/g/nodes/n1.json'' GRAPH_NODE"
  let ?m = "''Validation failed for /g/nodes/n1.json: ''
            @ [CHR 0x27] @ ''id'' @ [CHR 0x27] @ '' is a required property; ''
            @ ''position.x: '' @ [CHR 0x27] @ ''a'' @ [CHR 0x27] @ '' is not of type ''
            @ [CHR 0x27] @ ''number'' @ [CHR 0x27] @ ''; ''
            @ ''template: 7 is not of type '' @ [CHR 0x27] @ ''string'' @ [CHR 0x27]"
  note T = schema_violations_are_listed
    [of mem_os tree_bad_node ?task bad_node_text validating_ext bad_node root_args]
  have i: "iter_errors validating_ext (kind ?task) (data (parsed_task validating_ext ?task bad_node))
           = bad_node_errors"
    by code_simp
  have s: "source ?task = ''/g/nodes/n1.json''"
    by code_simp
  have h1: "os_read_text mem_os tree_bad_node (source ?task) = Inr bad_node_text
    \<and> json_load validating_ext bad_node_text = Inr bad_node
    \<and> iter_errors validating_ext (kind ?task) (data (parsed_task validating_ext ?task bad_node)) \<noteq> []
    \<and> comparable_paths
        (iter_errors validating_ext (kind ?task) (data (parsed_task validating_ext ?task bad_node)))"
    by code_simp
  have c1: "\<exists>listed.
      mset listed = mset bad_node_errors \<and> path_sorted listed
      \<and> load_task validating_ext mem_os tree_bad_node ?task
          = Inl (ConversionError
              (''Validation failed for /g/nodes/n1.json: ''
               @ join ''; '' (map format_validation_error listed)))"
    using T [THEN conjunct1, rule_format, OF h1] unfolding i s by simp
  have c2: "load_task validating_ext mem_os tree_bad_node ?task = Inl (ConversionError ?m)"
    by code_simp
  have a: "collect_tasks mem_os root_args tree_bad_node init_converter
           = (None, init_converter, [] @ ?task # [])"
    by code_simp
  have b: "\<forall>t\<in>set []. \<exists>t'. load_task validating_ext mem_os tree_bad_node t = Inr t'"
    by simp
  have r: "error init_converter ?m
           = \<lparr>failures = [], converted = 0, skipped = 0, stdout = [''[error] '' @ ?m @ NL]\<rparr>"
    by code_simp
  have c3: "process validating_ext mem_os root_args tree_bad_node
            = (Inr 1, error init_converter ?m, tree_bad_node)"
    by (rule T [THEN conjunct2, THEN conjunct2, THEN conjunct2, rule_format,
                of init_converter "[]" "[]" ?m])
       (intro conjI a b c2)
  from c1 c2 c3 show ?thesis
    unfolding r by simp
qed

end
